theory Spec2Isabelle
  imports Main "HOL-Library.Word" "HOL-Library.Char_ord" "HOL-Library.List_Lexorder"
begin

section \<open>Data model\<close>

text \<open>
  The record types of \<^verbatim>\<open>App.tsx\<close>. An optional property (\<^verbatim>\<open>people?: string[]\<close>) is an
  \<open>option\<close>: \<open>None\<close> is the property being absent or \<^verbatim>\<open>undefined\<close>. JavaScript strings are
  \<open>string\<close>, that is, strings whose code units are below 256; \<open>length\<close> is the number of
  code units, as \<^verbatim>\<open>String.prototype.length\<close> is. The number \<^verbatim>\<open>severity\<close> is an integer.
  The property \<^verbatim>\<open>id\<close> is called \<open>rec_id\<close> here, since \<open>id\<close> is the identity function of HOL;
  the properties \<^verbatim>\<open>id\<close>, \<^verbatim>\<open>name\<close>, \<^verbatim>\<open>type\<close> and \<^verbatim>\<open>source\<close> of an attachment carry the prefix
  \<open>att_\<close>. An event of the log is the pair of its timestamp and its action.
\<close>

datatype attachment_kind = image | pdf | audio | video | document

datatype attachment_source = scanner | camera | files_source

record AttachmentType =
  att_id :: string
  att_name :: string
  url :: string
  att_type :: attachment_kind
  att_source :: attachment_source
  fileHash :: "string option"
  ocrText :: "string option"

record RecordType =
  rec_id :: string
  dateTime :: string
  description :: string
  tags :: "string list"
  people :: "string list option"
  location :: "string option"
  severity :: "int option"
  files :: "AttachmentType list option"
  createdAt :: string
  editedAt :: "string option"
  contentHash :: "string option"
  eventLog :: "(string \<times> string) list option"

section \<open>Cloud sync: the merge of \<^verbatim>\<open>CloudSyncService.sync\<close>\<close>

text \<open>
  \<^verbatim>\<open>
  const mergedRecords = [...localRecords];
  const localIds = new Set(localRecords.map(r => r.id));
  for (const cloudRecord of cloudData.records) {
    if (!localIds.has(cloudRecord.id)) { mergedRecords.push(cloudRecord); }
  }
  \<close>
  The loop is \<open>merge_loop\<close>; \<open>localIds\<close> is computed once, from the local records only.
\<close>

fun merge_loop :: "string set \<Rightarrow> RecordType list \<Rightarrow> RecordType list \<Rightarrow> RecordType list" where
  "merge_loop localIds mergedRecords [] = mergedRecords"
| "merge_loop localIds mergedRecords (cloudRecord # rest) =
     (if rec_id cloudRecord \<notin> localIds
      then merge_loop localIds (mergedRecords @ [cloudRecord]) rest
      else merge_loop localIds mergedRecords rest)"

definition mergeRecords :: "RecordType list \<Rightarrow> RecordType list \<Rightarrow> RecordType list" where
  "mergeRecords localRecords cloudRecords =
     merge_loop (set (map rec_id localRecords)) localRecords cloudRecords"

text \<open>
  \<open>sync_recordsToUpload\<close> is the value of the variable \<^verbatim>\<open>recordsToUpload\<close> of \<^verbatim>\<open>sync\<close> where
  \<^verbatim>\<open>uploadToCloud\<close> is called: the local records when the cloud has no data (\<open>None\<close>) or no
  records, the merged list otherwise. It is the merge alone: the awaited
  \<^verbatim>\<open>indexedDBStorage.saveRecords(mergedRecords)\<close> that stands between the loop and the
  assignment is not part of it, and when that call rejects, \<^verbatim>\<open>sync\<close> uploads nothing and
  returns \<^verbatim>\<open>'Sync failed'\<close>.
\<close>

definition sync_recordsToUpload :: "RecordType list \<Rightarrow> RecordType list option \<Rightarrow> RecordType list" where
  "sync_recordsToUpload localRecords cloudData =
     (case cloudData of
        None \<Rightarrow> localRecords
      | Some cloudRecords \<Rightarrow>
          if length cloudRecords > 0 then mergeRecords localRecords cloudRecords
          else localRecords)"

section \<open>JavaScript values, settings and thrown errors\<close>

text \<open>
  A setting is stored with \<^verbatim>\<open>saveSetting(key: string, value: any)\<close>; the application stores
  strings and \<^verbatim>\<open>null\<close>. \<open>jsval\<close> are the scalar JavaScript values; \<open>JUndefined\<close> is also what
  reading an absent property gives. Numbers are the integers (which \<^verbatim>\<open>JSON.stringify\<close> writes
  in plain decimal below \<open>10\<^sup>2\<^sup>1\<close>).
\<close>

datatype jsval = JUndefined | JNull | JBool bool | JNum int | JStr string


text \<open>
  A value thrown by the platform: whether it is an \<^verbatim>\<open>instanceof Error\<close>, its \<^verbatim>\<open>name\<close> and its
  \<^verbatim>\<open>message\<close>.
\<close>

record js_error =
  instanceof_Error :: bool
  err_name :: string
  err_message :: string

text \<open>\<^verbatim>\<open>s.includes(sub)\<close>: \<open>sub\<close> occurs in \<open>s\<close> as a contiguous substring.\<close>

fun str_includes :: "string \<Rightarrow> string \<Rightarrow> bool" where
  "str_includes [] sub = (sub = [])"
| "str_includes (c # cs) sub = (take (length sub) (c # cs) = sub \<or> str_includes cs sub)"

section \<open>The IndexedDB store of \<^verbatim>\<open>indexedDBStorage.ts\<close>\<close>

text \<open>
  The database has the object store \<^verbatim>\<open>records\<close> with key path \<^verbatim>\<open>id\<close> and the object store
  \<^verbatim>\<open>settings\<close> with key path \<^verbatim>\<open>key\<close>. The state of the service is whether \<^verbatim>\<open>this.db\<close> is
  set, the content of the two object stores (the records in key order, as \<^verbatim>\<open>getAll\<close> returns
  them), and the behaviour of the platform: \<open>fails n\<close> says that the \<open>n\<close>-th request made to
  the database fails (an I/O error, a full disk), and \<open>served\<close> counts the requests made so
  far.
\<close>

datatype idb_error = ConstraintError | UnknownError

record idb =
  db :: bool
  records_store :: "RecordType list"
  settings_store :: "string \<rightharpoonup> jsval"
  fails :: "nat \<Rightarrow> bool"
  served :: nat

text \<open>\<^verbatim>\<open>initialize\<close>: the open request succeeds and sets \<^verbatim>\<open>this.db\<close>, or fails and rejects.\<close>

definition initialize :: "idb \<Rightarrow> (idb_error + unit) \<times> idb" where
  "initialize s =
     (if fails s (served s) then (Inl UnknownError, s\<lparr>served := Suc (served s)\<rparr>)
      else (Inr (), s\<lparr>db := True, served := Suc (served s)\<rparr>))"

text \<open>\<^verbatim>\<open>if (!this.db) await this.initialize();\<close>\<close>

definition ensure_db :: "idb \<Rightarrow> (idb_error + unit) \<times> idb" where
  "ensure_db s = (if \<not> db s then initialize s else (Inr (), s))"

text \<open>
  The requests that \<^verbatim>\<open>saveRecords\<close> places on the object store \<^verbatim>\<open>records\<close>. \<^verbatim>\<open>add\<close> fails with
  a \<^verbatim>\<open>ConstraintError\<close> when the store already holds a record with the same key.
\<close>

datatype request = Clear | Add RecordType

fun insert_by_key :: "RecordType \<Rightarrow> RecordType list \<Rightarrow> RecordType list" where
  "insert_by_key r [] = [r]"
| "insert_by_key r (x # xs) =
     (if rec_id r \<le> rec_id x then r # x # xs else x # insert_by_key r xs)"

fun exec_request :: "request \<Rightarrow> RecordType list \<Rightarrow> idb_error + RecordType list" where
  "exec_request Clear store = Inr []"
| "exec_request (Add r) store =
     (if rec_id r \<in> set (map rec_id store) then Inl ConstraintError
      else Inr (insert_by_key r store))"

text \<open>
  The requests of one transaction run in the order they were placed, on the transaction's
  view of the store. The first request that fails (the platform's failure or the request's own
  error) ends the run: its error event is not handled by \<^verbatim>\<open>saveRecords\<close>, so the transaction
  aborts. The result is the error or the final view, and the number of requests served.
\<close>

fun run_requests ::
  "(nat \<Rightarrow> bool) \<Rightarrow> nat \<Rightarrow> request list \<Rightarrow> RecordType list \<Rightarrow> (idb_error + RecordType list) \<times> nat"
where
  "run_requests f n [] store = (Inr store, n)"
| "run_requests f n (q # qs) store =
     (if f n then (Inl UnknownError, Suc n)
      else (case exec_request q store of
              Inl e \<Rightarrow> (Inl e, Suc n)
            | Inr store' \<Rightarrow> run_requests f (Suc n) qs store'))"

text \<open>
  \<^verbatim>\<open>saveRecords\<close>: one \<^verbatim>\<open>readwrite\<close> transaction that clears the store and adds every record.
  \<^verbatim>\<open>transaction.oncomplete\<close> resolves: the view becomes the store. \<^verbatim>\<open>transaction.onerror\<close>
  rejects: the transaction has aborted and the store is what it was before.
\<close>

definition saveRecords :: "RecordType list \<Rightarrow> idb \<Rightarrow> (idb_error + unit) \<times> idb" where
  "saveRecords records_in s =
     (case ensure_db s of
        (Inl e, s1) \<Rightarrow> (Inl e, s1)
      | (Inr _, s1) \<Rightarrow>
          (case run_requests (fails s1) (served s1) (Clear # map Add records_in) (records_store s1) of
             (Inl e, n) \<Rightarrow> (Inl e, s1\<lparr>served := n\<rparr>)
           | (Inr store', n) \<Rightarrow> (Inr (), s1\<lparr>records_store := store', served := n\<rparr>)))"

text \<open>\<^verbatim>\<open>getRecords\<close>: one \<^verbatim>\<open>getAll\<close> request in a \<^verbatim>\<open>readonly\<close> transaction.\<close>

definition getRecords :: "idb \<Rightarrow> (idb_error + RecordType list) \<times> idb" where
  "getRecords s =
     (case ensure_db s of
        (Inl e, s1) \<Rightarrow> (Inl e, s1)
      | (Inr _, s1) \<Rightarrow>
          (if fails s1 (served s1) then (Inl UnknownError, s1\<lparr>served := Suc (served s1)\<rparr>)
           else (Inr (records_store s1), s1\<lparr>served := Suc (served s1)\<rparr>)))"


text \<open>\<^verbatim>\<open>getSetting\<close>: one \<^verbatim>\<open>get(key)\<close> request; the result is \<^verbatim>\<open>request.result?.value\<close>.\<close>

definition stored_setting :: "idb \<Rightarrow> string \<Rightarrow> jsval" where
  "stored_setting s key = (case settings_store s key of None \<Rightarrow> JUndefined | Some v \<Rightarrow> v)"

definition getSetting :: "string \<Rightarrow> idb \<Rightarrow> (idb_error + jsval) \<times> idb" where
  "getSetting key s =
     (case ensure_db s of
        (Inl e, s1) \<Rightarrow> (Inl e, s1)
      | (Inr _, s1) \<Rightarrow>
          (if fails s1 (served s1) then (Inl UnknownError, s1\<lparr>served := Suc (served s1)\<rparr>)
           else (Inr (stored_setting s1 key), s1\<lparr>served := Suc (served s1)\<rparr>)))"

text \<open>Sequencing of awaited calls: the first rejection ends the sequence.\<close>

definition and_then ::
  "('e + 'a) \<times> 's \<Rightarrow> ('a \<Rightarrow> 's \<Rightarrow> ('e + 'b) \<times> 's) \<Rightarrow> ('e + 'b) \<times> 's" where
  "and_then m f = (case m of (Inl e, s) \<Rightarrow> (Inl e, s) | (Inr a, s) \<Rightarrow> f a s)"

section \<open>Platform functions that the standards fix\<close>

subsection \<open>\<^verbatim>\<open>btoa\<close> and \<^verbatim>\<open>atob\<close>\<close>

text \<open>
  \<^verbatim>\<open>btoa\<close> is the base64 encoding of a binary string (every code unit below 256, which every
  \<open>char\<close> is), and \<^verbatim>\<open>atob\<close> is the forgiving base64 decoding of the WHATWG Infra standard: ASCII
  whitespace is removed, one or two trailing \<^verbatim>\<open>=\<close> are removed when the length is a multiple
  of four, a length of 1 modulo 4 or a character outside the alphabet is a failure, and the
  bits left over after the last whole byte are discarded.
\<close>

definition b64_char :: "nat \<Rightarrow> char" where
  "b64_char n =
     (if n < 26 then char_of (65 + n)
      else if n < 52 then char_of (71 + n)
      else if n < 62 then char_of (n - 4)
      else if n = 62 then CHR ''+''
      else CHR ''/'')"

definition b64_value :: "char \<Rightarrow> nat option" where
  "b64_value c =
     (let k = (of_char c :: nat) in
      if 65 \<le> k \<and> k \<le> 90 then Some (k - 65)
      else if 97 \<le> k \<and> k \<le> 122 then Some (k - 71)
      else if 48 \<le> k \<and> k \<le> 57 then Some (k + 4)
      else if k = 43 then Some 62
      else if k = 47 then Some 63
      else None)"

fun b64_encode_groups :: "nat list \<Rightarrow> string" where
  "b64_encode_groups (a # b # c # rest) =
     [b64_char (a div 4), b64_char ((a mod 4) * 16 + b div 16),
      b64_char ((b mod 16) * 4 + c div 64), b64_char (c mod 64)] @ b64_encode_groups rest"
| "b64_encode_groups [a, b] =
     [b64_char (a div 4), b64_char ((a mod 4) * 16 + b div 16),
      b64_char ((b mod 16) * 4), CHR ''='']"
| "b64_encode_groups [a] =
     [b64_char (a div 4), b64_char ((a mod 4) * 16), CHR ''='', CHR ''='']"
| "b64_encode_groups [] = []"

definition btoa :: "string \<Rightarrow> string" where
  "btoa binary = b64_encode_groups (map of_char binary)"

definition ascii_whitespace :: "char \<Rightarrow> bool" where
  "ascii_whitespace c = ((of_char c :: nat) \<in> {9, 10, 12, 13, 32})"

definition strip_padding :: "string \<Rightarrow> string" where
  "strip_padding d =
     (if length d mod 4 = 0 then
        (if 2 \<le> length d \<and> drop (length d - 2) d = ''=='' then take (length d - 2) d
         else if 1 \<le> length d \<and> drop (length d - 1) d = ''='' then take (length d - 1) d
         else d)
      else d)"

fun b64_decode_groups :: "nat list \<Rightarrow> nat list" where
  "b64_decode_groups (a # b # c # d # rest) =
     [a * 4 + b div 16, (b mod 16) * 16 + c div 4, (c mod 4) * 64 + d] @ b64_decode_groups rest"
| "b64_decode_groups [a, b, c] = [a * 4 + b div 16, (b mod 16) * 16 + c div 4]"
| "b64_decode_groups [a, b] = [a * 4 + b div 16]"
| "b64_decode_groups [a] = []"
| "b64_decode_groups [] = []"

definition forgiving_base64_decode :: "string \<Rightarrow> string option" where
  "forgiving_base64_decode data =
     (let stripped = strip_padding (filter (\<lambda>c. \<not> ascii_whitespace c) data) in
      if length stripped mod 4 = 1 then None
      else (case those (map b64_value stripped) of
              None \<Rightarrow> None
            | Some sextets \<Rightarrow> Some (map char_of (b64_decode_groups sextets))))"

text \<open>
  The encoding seen as data: the six-bit values of the encoded text, and its padding. They
  are used to state what \<open>b64_encode_groups\<close> produces.
\<close>

fun b64_sextets :: "nat list \<Rightarrow> nat list" where
  "b64_sextets (a # b # c # rest) =
     [a div 4, (a mod 4) * 16 + b div 16, (b mod 16) * 4 + c div 64, c mod 64] @ b64_sextets rest"
| "b64_sextets [a, b] = [a div 4, (a mod 4) * 16 + b div 16, (b mod 16) * 4]"
| "b64_sextets [a] = [a div 4, (a mod 4) * 16]"
| "b64_sextets [] = []"

definition b64_padding :: "nat list \<Rightarrow> string" where
  "b64_padding xs = replicate ((3 - length xs mod 3) mod 3) (CHR ''='')"

subsection \<open>JavaScript text: \<^verbatim>\<open>JSON.stringify\<close> of a flat object, UTF-8 and hexadecimal\<close>

text \<open>
  The text of an evidence record is serialized, encoded and handed to \<^verbatim>\<open>btoa\<close>, which tell
  code units apart, so it is kept as a JavaScript string proper: a list of 16-bit code units.
  \<open>utf16\<close> is a string of the source, whose code units are below 256, as such a list.
\<close>

type_synonym js_string = "16 word list"

definition utf16 :: "string \<Rightarrow> js_string" where
  "utf16 s = map (\<lambda>c. word_of_nat (of_char c)) s"

text \<open>
  An object whose property values are numbers and strings is the list of its own properties
  in insertion order; the property names are names of the source. \<^verbatim>\<open>JSON.stringify\<close> leaves out
  a property whose value is \<^verbatim>\<open>undefined\<close>, writes an integer in decimal, and quotes a string
  (ECMA-262, QuoteJSONString): the quotation mark, the backslash and the control characters
  are escaped, a surrogate that is not half of a pair is written as \<^verbatim>\<open>\uXXXX\<close>, and every other
  code unit stands for itself.
\<close>

datatype prop_value = PUndefined | PNull | PNum int | PStr js_string

type_synonym js_object = "(string \<times> prop_value) list"

definition get_property :: "js_object \<Rightarrow> string \<Rightarrow> prop_value" where
  "get_property obj k = (case map_of obj k of None \<Rightarrow> PUndefined | Some v \<Rightarrow> v)"

text \<open>\<^verbatim>\<open>{ ...obj, k: v }\<close>: an existing property keeps its place, a new one goes last.\<close>

definition set_property :: "js_object \<Rightarrow> string \<Rightarrow> prop_value \<Rightarrow> js_object" where
  "set_property obj k v =
     (if k \<in> set (map fst obj) then map (\<lambda>(k', v'). if k' = k then (k', v) else (k', v')) obj
      else obj @ [(k, v)])"

text \<open>\<^verbatim>\<open>const { k, ...rest } = obj\<close>\<close>

definition without_property :: "js_object \<Rightarrow> string \<Rightarrow> js_object" where
  "without_property obj k = filter (\<lambda>(k', v'). k' \<noteq> k) obj"

definition hex_digit :: "nat \<Rightarrow> char" where
  "hex_digit n = (if n < 10 then char_of (48 + n) else char_of (87 + n))"

fun decimal :: "nat \<Rightarrow> string" where
  "decimal n = (if n < 10 then [char_of (48 + n)] else decimal (n div 10) @ [char_of (48 + n mod 10)])"

definition number_to_string :: "int \<Rightarrow> string" where
  "number_to_string i = (if i < 0 then CHR ''-'' # decimal (nat (- i)) else decimal (nat i))"

definition is_leading_surrogate :: "16 word \<Rightarrow> bool" where
  "is_leading_surrogate u = (0xD800 \<le> unat u \<and> unat u \<le> 0xDBFF)"

definition is_trailing_surrogate :: "16 word \<Rightarrow> bool" where
  "is_trailing_surrogate u = (0xDC00 \<le> unat u \<and> unat u \<le> 0xDFFF)"

definition json_escape_unit :: "16 word \<Rightarrow> js_string" where
  "json_escape_unit u =
     (let k = unat u in
      if k = 8 then utf16 [CHR 0x5C, CHR ''b'']
      else if k = 9 then utf16 [CHR 0x5C, CHR ''t'']
      else if k = 10 then utf16 [CHR 0x5C, CHR ''n'']
      else if k = 12 then utf16 [CHR 0x5C, CHR ''f'']
      else if k = 13 then utf16 [CHR 0x5C, CHR ''r'']
      else if k = 34 then utf16 [CHR 0x5C, CHR 0x22]
      else if k = 92 then utf16 [CHR 0x5C, CHR 0x5C]
      else if k < 32 \<or> is_leading_surrogate u \<or> is_trailing_surrogate u
      then utf16 [CHR 0x5C, CHR ''u'', hex_digit (k div 4096), hex_digit (k div 256 mod 16),
                  hex_digit (k div 16 mod 16), hex_digit (k mod 16)]
      else [u])"

fun json_quote_units :: "js_string \<Rightarrow> js_string" where
  "json_quote_units (u # v # rest) =
     (if is_leading_surrogate u \<and> is_trailing_surrogate v then u # v # json_quote_units rest
      else json_escape_unit u @ json_quote_units (v # rest))"
| "json_quote_units [u] = json_escape_unit u"
| "json_quote_units [] = []"

definition json_quote :: "js_string \<Rightarrow> js_string" where
  "json_quote s = utf16 [CHR 0x22] @ json_quote_units s @ utf16 [CHR 0x22]"

fun json_scalar :: "prop_value \<Rightarrow> js_string option" where
  "json_scalar PUndefined = None"
| "json_scalar PNull = Some (utf16 ''null'')"
| "json_scalar (PNum n) = Some (utf16 (number_to_string n))"
| "json_scalar (PStr s) = Some (json_quote s)"

fun json_members :: "js_object \<Rightarrow> js_string list" where
  "json_members [] = []"
| "json_members ((k, v) # rest) =
     (case json_scalar v of
        None \<Rightarrow> json_members rest
      | Some text \<Rightarrow> (json_quote (utf16 k) @ utf16 '':'' @ text) # json_members rest)"

fun join_comma :: "js_string list \<Rightarrow> js_string" where
  "join_comma [] = []"
| "join_comma [x] = x"
| "join_comma (x # y # rest) = x @ utf16 '','' @ join_comma (y # rest)"

definition JSON_stringify_object :: "js_object \<Rightarrow> js_string" where
  "JSON_stringify_object obj = utf16 ''{'' @ join_comma (json_members obj) @ utf16 ''}''"

text \<open>
  \<^verbatim>\<open>new TextEncoder().encode(text)\<close> (WHATWG Encoding): the code units are read as code points,
  a surrogate pair as one code point and a surrogate that is not half of a pair as U+FFFD,
  and every code point is written in UTF-8.
\<close>

definition lone_unit :: "16 word \<Rightarrow> nat" where
  "lone_unit u = (if is_leading_surrogate u \<or> is_trailing_surrogate u then 0xFFFD else unat u)"

fun code_points :: "js_string \<Rightarrow> nat list" where
  "code_points (u # v # rest) =
     (if is_leading_surrogate u \<and> is_trailing_surrogate v
      then (0x10000 + (unat u - 0xD800) * 1024 + (unat v - 0xDC00)) # code_points rest
      else lone_unit u # code_points (v # rest))"
| "code_points [u] = [lone_unit u]"
| "code_points [] = []"

definition utf8_of_code_point :: "nat \<Rightarrow> nat list" where
  "utf8_of_code_point cp =
     (if cp < 0x80 then [cp]
      else if cp < 0x800 then [0xC0 + cp div 64, 0x80 + cp mod 64]
      else if cp < 0x10000 then [0xE0 + cp div 4096, 0x80 + cp div 64 mod 64, 0x80 + cp mod 64]
      else [0xF0 + cp div 262144, 0x80 + cp div 4096 mod 64, 0x80 + cp div 64 mod 64,
            0x80 + cp mod 64])"

definition utf8_encode :: "js_string \<Rightarrow> 8 word list" where
  "utf8_encode text = map word_of_nat (concat (map utf8_of_code_point (code_points text)))"

text \<open>
  \<^verbatim>\<open>btoa(text)\<close> on a JavaScript string: a code unit above 255 makes it throw an
  \<^verbatim>\<open>InvalidCharacterError\<close>; otherwise the result is the base64 text of the code units as bytes.
\<close>

datatype hash_error = InvalidCharacterError

definition btoa_text :: "js_string \<Rightarrow> hash_error + js_string" where
  "btoa_text text =
     (if \<exists>u \<in> set text. 255 < unat u then Inl InvalidCharacterError
      else Inr (utf16 (btoa (map (\<lambda>u. char_of (unat u)) text))))"

text \<open>\<^verbatim>\<open>hashArray.map(b => b.toString(16).padStart(2, '0')).join('')\<close>\<close>

definition to_hex :: "8 word list \<Rightarrow> string" where
  "to_hex hashArray = concat (map (\<lambda>b. [hex_digit (unat b div 16), hex_digit (unat b mod 16)]) hashArray)"

section \<open>The Web platform as a parameter\<close>

text \<open>
  The functions of the platform that the standards do not fix as plain functions of their
  arguments here, or that are too large to write out, are the fields of \<open>webapi\<close>:
  \<^verbatim>\<open>TextEncoder\<close> and \<^verbatim>\<open>TextDecoder\<close>, \<^verbatim>\<open>JSON.stringify\<close> and \<^verbatim>\<open>JSON.parse\<close> at the type
  \<^verbatim>\<open>BackupData\<close>, the value \<^verbatim>\<open>atob\<close> throws, and of \<^verbatim>\<open>crypto.subtle\<close> the PBKDF2 key derivation
  (\<^verbatim>\<open>importKey\<close> then \<^verbatim>\<open>deriveKey\<close>, from the password bytes, the salt and the iteration
  count), AES-GCM encryption and decryption (key, IV, data), and the SHA-256 digest.
  \<open>has_crypto_subtle\<close> is the test
  \<^verbatim>\<open>typeof crypto !== 'undefined' && crypto.subtle\<close>.
\<close>

record backup_settings =
  pin :: jsval
  decoyPin :: jsval
  lockEnabled :: jsval
  userName :: jsval
  welcomeCompleted :: jsval

record BackupData =
  version :: string
  exportDate :: string
  records :: "RecordType list"
  settings :: backup_settings

record EncryptedBackup =
  eb_version :: string
  salt :: string
  iv :: string
  data :: string

record webapi =
  TextEncoder_encode :: "string \<Rightarrow> 8 word list"
  TextDecoder_decode :: "8 word list \<Rightarrow> string"
  JSON_stringify :: "BackupData \<Rightarrow> string"
  JSON_parse :: "string \<Rightarrow> js_error + BackupData"
  atob_error :: js_error
  PBKDF2_deriveKey :: "8 word list \<Rightarrow> 8 word list \<Rightarrow> nat \<Rightarrow> js_error + 8 word list"
  AES_GCM_encrypt :: "8 word list \<Rightarrow> 8 word list \<Rightarrow> 8 word list \<Rightarrow> js_error + 8 word list"
  AES_GCM_decrypt :: "8 word list \<Rightarrow> 8 word list \<Rightarrow> 8 word list \<Rightarrow> js_error + 8 word list"
  has_crypto_subtle :: bool
  digest_SHA256 :: "8 word list \<Rightarrow> 8 word list"

definition atob :: "webapi \<Rightarrow> string \<Rightarrow> js_error + string" where
  "atob P base64 =
     (case forgiving_base64_decode base64 of None \<Rightarrow> Inl (atob_error P) | Some binary \<Rightarrow> Inr binary)"

section \<open>The backup service of \<^verbatim>\<open>encryptedBackup.ts\<close>\<close>

definition BACKUP_VERSION :: string where
  "BACKUP_VERSION = ''1.0''"

definition ITERATIONS :: nat where
  "ITERATIONS = 100000"

text \<open>
  The errors the service throws: \<^verbatim>\<open>'Password must be at least 6 characters'\<close>,
  \<^verbatim>\<open>'Failed to create encrypted backup'\<close>, \<^verbatim>\<open>'Password is required'\<close>,
  \<^verbatim>\<open>'Incorrect password or corrupted backup file'\<close>, \<^verbatim>\<open>'Failed to restore backup'\<close> and
  \<^verbatim>\<open>'Failed to apply backup data'\<close>.
\<close>

datatype backup_error =
    PasswordTooWeak
  | BackupCreationFailed
  | PasswordRequired
  | IncorrectPasswordOrCorrupted
  | RestoreFailed
  | ApplyFailed

definition deriveKey :: "webapi \<Rightarrow> string \<Rightarrow> 8 word list \<Rightarrow> js_error + 8 word list" where
  "deriveKey P password salt_bytes =
     PBKDF2_deriveKey P (TextEncoder_encode P password) salt_bytes ITERATIONS"

text \<open>
  \<^verbatim>\<open>arrayBufferToBase64\<close> builds the binary string with \<^verbatim>\<open>String.fromCharCode(bytes[i])\<close>;
  \<^verbatim>\<open>base64ToArrayBuffer\<close> stores \<^verbatim>\<open>binary.charCodeAt(i)\<close> into a \<^verbatim>\<open>Uint8Array\<close>.
\<close>

definition arrayBufferToBase64 :: "8 word list \<Rightarrow> string" where
  "arrayBufferToBase64 bytes = btoa (map (\<lambda>b. char_of (unat b)) bytes)"

definition base64ToArrayBuffer :: "webapi \<Rightarrow> string \<Rightarrow> js_error + 8 word list" where
  "base64ToArrayBuffer P base64 =
     (case atob P base64 of
        Inl e \<Rightarrow> Inl e
      | Inr binary \<Rightarrow> Inr (map (\<lambda>c. word_of_nat (of_char c)) binary))"

text \<open>The five awaited \<^verbatim>\<open>getSetting\<close> calls of \<^verbatim>\<open>createBackup\<close>, in their order.\<close>

definition gather_settings :: "idb \<Rightarrow> (idb_error + backup_settings) \<times> idb" where
  "gather_settings s0 =
     and_then (getSetting ''recordKeeper_pin'' s0) (\<lambda>v1 s1.
     and_then (getSetting ''recordKeeper_decoyPin'' s1) (\<lambda>v2 s2.
     and_then (getSetting ''recordKeeper_lockEnabled'' s2) (\<lambda>v3 s3.
     and_then (getSetting ''recordKeeper_userName'' s3) (\<lambda>v4 s4.
     and_then (getSetting ''recordKeeper_welcomeCompleted'' s4) (\<lambda>v5 s5.
       (Inr \<lparr>pin = v1, decoyPin = v2, lockEnabled = v3, userName = v4,
              welcomeCompleted = v5\<rparr>, s5))))))"

text \<open>
  \<^verbatim>\<open>createBackup(password, records)\<close>. \<open>now\<close> is \<^verbatim>\<open>new Date().toISOString()\<close> and \<open>entropy\<close> is
  the stream of bytes that \<^verbatim>\<open>crypto.getRandomValues\<close> hands out during the call: the first 16
  are the salt, the next 12 the IV. The password test comes before the \<^verbatim>\<open>try\<close>; every
  failure inside the \<^verbatim>\<open>try\<close> is rethrown as \<open>BackupCreationFailed\<close>.
\<close>

definition createBackup ::
  "webapi \<Rightarrow> string \<Rightarrow> (nat \<Rightarrow> 8 word) \<Rightarrow> string \<Rightarrow> RecordType list \<Rightarrow> idb
     \<Rightarrow> (backup_error + EncryptedBackup) \<times> idb" where
  "createBackup P now entropy password records_in s =
     (if password = [] \<or> length password < 6 then (Inl PasswordTooWeak, s)
      else
        (case gather_settings s of
           (Inl e, s1) \<Rightarrow> (Inl BackupCreationFailed, s1)
         | (Inr settings_read, s1) \<Rightarrow>
             (let backupData = \<lparr>version = BACKUP_VERSION, exportDate = now,
                                records = records_in, settings = settings_read\<rparr>;
                  jsonData = JSON_stringify P backupData;
                  dataBuffer = TextEncoder_encode P jsonData;
                  salt_bytes = map entropy [0..<16];
                  iv_bytes = map entropy [16..<28]
              in (case deriveKey P password salt_bytes of
                    Inl e \<Rightarrow> (Inl BackupCreationFailed, s1)
                  | Inr key \<Rightarrow>
                      (case AES_GCM_encrypt P key iv_bytes dataBuffer of
                         Inl e \<Rightarrow> (Inl BackupCreationFailed, s1)
                       | Inr encryptedBuffer \<Rightarrow>
                           (Inr \<lparr>eb_version = BACKUP_VERSION,
                                  salt = arrayBufferToBase64 salt_bytes,
                                  iv = arrayBufferToBase64 iv_bytes,
                                  data = arrayBufferToBase64 encryptedBuffer\<rparr>, s1))))))"

text \<open>
  The \<^verbatim>\<open>try\<close> block of \<^verbatim>\<open>restoreBackup\<close>: the first step that throws ends it.
  \<open>decrypt_envelope\<close> is the block up to and including \<^verbatim>\<open>crypto.subtle.decrypt\<close>;
  \<open>restore_try\<close> is the whole block. A version other than \<open>BACKUP_VERSION\<close> only logs a
  warning.
\<close>

definition decrypt_envelope :: "webapi \<Rightarrow> string \<Rightarrow> EncryptedBackup \<Rightarrow> js_error + 8 word list" where
  "decrypt_envelope P password encryptedBackup =
     (case base64ToArrayBuffer P (salt encryptedBackup) of
        Inl e \<Rightarrow> Inl e
      | Inr salt_bytes \<Rightarrow>
     (case base64ToArrayBuffer P (iv encryptedBackup) of
        Inl e \<Rightarrow> Inl e
      | Inr iv_bytes \<Rightarrow>
     (case base64ToArrayBuffer P (data encryptedBackup) of
        Inl e \<Rightarrow> Inl e
      | Inr encryptedData \<Rightarrow>
     (case deriveKey P password salt_bytes of
        Inl e \<Rightarrow> Inl e
      | Inr key \<Rightarrow> AES_GCM_decrypt P key iv_bytes encryptedData))))"

definition restore_try :: "webapi \<Rightarrow> string \<Rightarrow> EncryptedBackup \<Rightarrow> js_error + BackupData" where
  "restore_try P password encryptedBackup =
     (case decrypt_envelope P password encryptedBackup of
        Inl e \<Rightarrow> Inl e
      | Inr decryptedBuffer \<Rightarrow> JSON_parse P (TextDecoder_decode P decryptedBuffer))"

text \<open>
  The \<^verbatim>\<open>catch\<close> of \<^verbatim>\<open>restoreBackup\<close>:
  \<^verbatim>\<open>if (error instanceof Error && error.message.includes('OperationError'))\<close>.
\<close>

definition restore_catch :: "js_error \<Rightarrow> backup_error" where
  "restore_catch error =
     (if instanceof_Error error \<and> str_includes (err_message error) ''OperationError''
      then IncorrectPasswordOrCorrupted else RestoreFailed)"

definition restoreBackup :: "webapi \<Rightarrow> string \<Rightarrow> EncryptedBackup \<Rightarrow> backup_error + BackupData" where
  "restoreBackup P password encryptedBackup =
     (if password = [] then Inl PasswordRequired
      else (case restore_try P password encryptedBackup of
              Inl error \<Rightarrow> Inl (restore_catch error)
            | Inr backupData \<Rightarrow> Inr backupData))"






section \<open>The integrity hash of \<^verbatim>\<open>EncryptedStorageService\<close>\<close>

text \<open>
  An evidence record is an object with the properties of the interface \<^verbatim>\<open>EncryptedRecord\<close>:
  \<^verbatim>\<open>id?: number\<close>, \<^verbatim>\<open>timestamp: number\<close>, \<^verbatim>\<open>type\<close>, \<^verbatim>\<open>content\<close>, \<^verbatim>\<open>tags\<close>,
  \<^verbatim>\<open>attachments?\<close> and \<^verbatim>\<open>hash\<close> (strings). \<^verbatim>\<open>generateHash\<close> serializes the object it is given,
  whatever its properties are: the parameter type \<^verbatim>\<open>Omit<EncryptedRecord, 'id' | 'hash'>\<close> is
  erased at run time. With \<^verbatim>\<open>crypto.subtle\<close> the hash is the SHA-256 digest of the UTF-8 text in
  hexadecimal; without it, the first 64 characters of the base64 text, and \<^verbatim>\<open>btoa\<close> throwing
  makes \<^verbatim>\<open>generateHash\<close> reject.
\<close>

definition generateHash :: "webapi \<Rightarrow> js_object \<Rightarrow> hash_error + js_string" where
  "generateHash P record =
     (let data_text = JSON_stringify_object record in
      if has_crypto_subtle P
      then Inr (utf16 (to_hex (digest_SHA256 P (utf8_encode data_text))))
      else (case btoa_text data_text of
              Inl e \<Rightarrow> Inl e
            | Inr base64 \<Rightarrow> Inr (take 64 base64)))"

text \<open>
  \<^verbatim>\<open>
  const { hash, ...recordWithoutHash } = record;
  const calculatedHash = await this.generateHash(recordWithoutHash);
  return hash === calculatedHash;
  \<close>
  Only \<^verbatim>\<open>hash\<close> is taken out of the object; a rejection of \<^verbatim>\<open>generateHash\<close> is passed on.
\<close>

definition verifyRecordIntegrity :: "webapi \<Rightarrow> js_object \<Rightarrow> hash_error + bool" where
  "verifyRecordIntegrity P record =
     (let hash = get_property record ''hash'';
          recordWithoutHash = without_property record ''hash''
      in (case generateHash P recordWithoutHash of
            Inl e \<Rightarrow> Inl e
          | Inr calculatedHash \<Rightarrow> Inr (hash = PStr calculatedHash)))"

text \<open>
  \<^verbatim>\<open>saveRecord\<close> on the web (\<^verbatim>\<open>isNative\<close> false): the hash is computed from the record as
  passed, then \<^verbatim>\<open>saveToLocalStorage\<close> gives the record the next id and appends it to the list
  kept under \<^verbatim>\<open>evidence_records\<close>. The list is kept as JSON text, which drops the properties
  whose value is \<^verbatim>\<open>undefined\<close>. \<open>record_id_or_0\<close> is \<^verbatim>\<open>r.id || 0\<close> for a numeric id. The
  \<^verbatim>\<open>catch\<close> of \<^verbatim>\<open>saveRecord\<close> rethrows what it caught. (On a native platform the same record
  and hash go into an SQLite table instead.)
\<close>

definition record_id_or_0 :: "js_object \<Rightarrow> int" where
  "record_id_or_0 r = (case get_property r ''id'' of PNum n \<Rightarrow> n | _ \<Rightarrow> 0)"

fun max_of :: "int list \<Rightarrow> int" where
  "max_of [] = 0"
| "max_of [x] = x"
| "max_of (x # y # rest) = max x (max_of (y # rest))"

definition json_kept :: "js_object \<Rightarrow> js_object" where
  "json_kept obj = filter (\<lambda>(k, v). v \<noteq> PUndefined) obj"

definition saveToLocalStorage :: "js_object \<Rightarrow> js_object list \<Rightarrow> int \<times> js_object list" where
  "saveToLocalStorage record stored =
     (let new_id = (if length stored > 0 then max_of (map record_id_or_0 stored) + 1 else 1);
          newRecord = set_property record ''id'' (PNum new_id)
      in (new_id, map json_kept (stored @ [newRecord])))"

definition saveRecord ::
  "webapi \<Rightarrow> js_object \<Rightarrow> js_object list \<Rightarrow> hash_error + int \<times> js_object list" where
  "saveRecord P record stored =
     (case generateHash P record of
        Inl e \<Rightarrow> Inl e
      | Inr hash \<Rightarrow>
          (let recordWithHash = set_property record ''hash'' (PStr hash)
           in Inr (saveToLocalStorage recordWithHash stored)))"

text \<open>
  The object literal a caller passes to \<^verbatim>\<open>saveRecord\<close>, as in \<^verbatim>\<open>SECURITY.md\<close>, with or without
  \<^verbatim>\<open>attachments\<close>; and, written out, the members of its JSON text and the text itself: this is
  what is hashed when a record is saved.
\<close>

definition evidence_record ::
  "int \<Rightarrow> js_string \<Rightarrow> js_string \<Rightarrow> js_string \<Rightarrow> js_string option \<Rightarrow> js_object" where
  "evidence_record timestamp_ms type_text content_text tags_text attachments_text =
     [(''timestamp'', PNum timestamp_ms), (''type'', PStr type_text),
      (''content'', PStr content_text), (''tags'', PStr tags_text)]
     @ (case attachments_text of None \<Rightarrow> [] | Some a \<Rightarrow> [(''attachments'', PStr a)])"

definition evidence_members ::
  "int \<Rightarrow> js_string \<Rightarrow> js_string \<Rightarrow> js_string \<Rightarrow> js_string option \<Rightarrow> js_string" where
  "evidence_members timestamp_ms type_text content_text tags_text attachments_text =
     utf16 ([CHR 0x22] @ ''timestamp'' @ [CHR 0x22, CHR '':''])
     @ utf16 (number_to_string timestamp_ms)
     @ utf16 ([CHR '','', CHR 0x22] @ ''type'' @ [CHR 0x22, CHR '':'']) @ json_quote type_text
     @ utf16 ([CHR '','', CHR 0x22] @ ''content'' @ [CHR 0x22, CHR '':'']) @ json_quote content_text
     @ utf16 ([CHR '','', CHR 0x22] @ ''tags'' @ [CHR 0x22, CHR '':'']) @ json_quote tags_text
     @ (case attachments_text of
          None \<Rightarrow> []
        | Some a \<Rightarrow> utf16 ([CHR '','', CHR 0x22] @ ''attachments'' @ [CHR 0x22, CHR '':''])
                    @ json_quote a)"

definition evidence_text ::
  "int \<Rightarrow> js_string \<Rightarrow> js_string \<Rightarrow> js_string \<Rightarrow> js_string option \<Rightarrow> js_string" where
  "evidence_text timestamp_ms type_text content_text tags_text attachments_text =
     utf16 ''{''
     @ evidence_members timestamp_ms type_text content_text tags_text attachments_text
     @ utf16 ''}''"

text \<open>
  The JSON text of the stored record without its \<^verbatim>\<open>hash\<close>, which is what
  \<^verbatim>\<open>verifyRecordIntegrity\<close> hashes: the same members, and the \<^verbatim>\<open>id\<close> after them.
\<close>

definition evidence_text_with_id ::
  "int \<Rightarrow> js_string \<Rightarrow> js_string \<Rightarrow> js_string \<Rightarrow> js_string option \<Rightarrow> int \<Rightarrow> js_string" where
  "evidence_text_with_id timestamp_ms type_text content_text tags_text attachments_text id_number =
     utf16 ''{''
     @ evidence_members timestamp_ms type_text content_text tags_text attachments_text
     @ utf16 ([CHR '','', CHR 0x22] @ ''id'' @ [CHR 0x22, CHR '':''])
     @ utf16 (number_to_string id_number) @ utf16 ''}''"

section \<open>Platform laws used as hypotheses\<close>




section \<open>A test double of the platform, and test data\<close>

text \<open>
  \<open>test_api\<close> stands in for the platform where a theorem is run on concrete data. Its
  text codec is Latin-1, its key derivation concatenates and truncates, its cipher adds one to
  every byte and appends key and IV as the authentication tag, its digest is a byte sum, and its
  JSON functions know one snapshot. \<open>no_subtle_api\<close> is a page without \<^verbatim>\<open>crypto.subtle\<close> (an
  insecure context); there \<^verbatim>\<open>generateHash\<close> uses only \<^verbatim>\<open>JSON.stringify\<close> and \<^verbatim>\<open>btoa\<close>, which
  are not test doubles.
\<close>

definition operation_error :: js_error where
  "operation_error = \<lparr>instanceof_Error = True, err_name = ''OperationError'',
     err_message = ''The operation failed for an operation-specific reason''\<rparr>"

definition invalid_character_error :: js_error where
  "invalid_character_error = \<lparr>instanceof_Error = True, err_name = ''InvalidCharacterError'',
     err_message = ''The string to be decoded is not correctly encoded.''\<rparr>"

definition syntax_error :: js_error where
  "syntax_error = \<lparr>instanceof_Error = True, err_name = ''SyntaxError'',
     err_message = ''Unexpected end of JSON input''\<rparr>"

definition test_record :: RecordType where
  "test_record = \<lparr>rec_id = ''r1'', dateTime = ''2024-01-05T10:00'',
     description = ''Incident at pickup'', tags = [''Harassment''], people = None,
     location = None, severity = Some 4, files = None,
     createdAt = ''2024-01-05T10:01:00.000Z'', editedAt = None, contentHash = None,
     eventLog = Some [(''2024-01-05T10:01:00.000Z'', ''created'')]\<rparr>"

definition test_record_cloud :: RecordType where
  "test_record_cloud = test_record\<lparr>description := ''Edited on another device''\<rparr>"

definition test_record_2 :: RecordType where
  "test_record_2 = test_record\<lparr>rec_id := ''r2'', description := ''Missed exchange''\<rparr>"

definition test_record_3 :: RecordType where
  "test_record_3 = test_record\<lparr>rec_id := ''r3'', description := ''Message received''\<rparr>"

definition test_settings :: backup_settings where
  "test_settings = \<lparr>pin = JStr ''1234'', decoyPin = JUndefined, lockEnabled = JStr ''true'',
     userName = JNull, welcomeCompleted = JStr ''true''\<rparr>"

definition test_snapshot :: BackupData where
  "test_snapshot = \<lparr>version = ''1.0'', exportDate = ''2024-01-06T09:00:00.000Z'',
     records = [test_record], settings = test_settings\<rparr>"

definition test_stringify :: "BackupData \<Rightarrow> string" where
  "test_stringify d = (if d = test_snapshot then ''{snapshot}'' else ''{}'')"

definition test_parse :: "string \<Rightarrow> js_error + BackupData" where
  "test_parse text = (if text = ''{snapshot}'' then Inr test_snapshot else Inl syntax_error)"

definition test_tag :: "8 word list \<Rightarrow> 8 word list \<Rightarrow> 8 word list" where
  "test_tag key iv_bytes = key @ iv_bytes"

definition test_encrypt :: "8 word list \<Rightarrow> 8 word list \<Rightarrow> 8 word list \<Rightarrow> js_error + 8 word list" where
  "test_encrypt key iv_bytes plain = Inr (map (\<lambda>b. b + 1) plain @ test_tag key iv_bytes)"

definition test_decrypt :: "8 word list \<Rightarrow> 8 word list \<Rightarrow> 8 word list \<Rightarrow> js_error + 8 word list" where
  "test_decrypt key iv_bytes cipher =
     (let n = length cipher - length (test_tag key iv_bytes) in
      if length (test_tag key iv_bytes) \<le> length cipher \<and> drop n cipher = test_tag key iv_bytes
      then Inr (map (\<lambda>b. b - 1) (take n cipher))
      else Inl operation_error)"

definition test_api :: webapi where
  "test_api = \<lparr>
     TextEncoder_encode = map (\<lambda>c. word_of_nat (of_char c)),
     TextDecoder_decode = map (\<lambda>b. char_of (unat b)),
     JSON_stringify = test_stringify,
     JSON_parse = test_parse,
     atob_error = invalid_character_error,
     PBKDF2_deriveKey = (\<lambda>password_bytes salt_bytes n. Inr (take 4 (password_bytes @ salt_bytes))),
     AES_GCM_encrypt = test_encrypt,
     AES_GCM_decrypt = test_decrypt,
     has_crypto_subtle = True,
     digest_SHA256 = (\<lambda>bytes. replicate 32 (sum_list bytes))\<rparr>"

definition no_subtle_api :: webapi where
  "no_subtle_api = test_api\<lparr>has_crypto_subtle := False\<rparr>"

definition test_store :: idb where
  "test_store = \<lparr>db = True, records_store = [test_record],
     settings_store = [''recordKeeper_pin'' \<mapsto> JStr ''1234'',
                       ''recordKeeper_lockEnabled'' \<mapsto> JStr ''true'',
                       ''recordKeeper_userName'' \<mapsto> JNull,
                       ''recordKeeper_welcomeCompleted'' \<mapsto> JStr ''true''],
     fails = (\<lambda>n. False), served = 0\<rparr>"

text \<open>The test store on a platform whose third request from now on fails.\<close>

definition test_store_failing :: idb where
  "test_store_failing = test_store\<lparr>fails := (\<lambda>n. n = 2)\<rparr>"

definition test_entropy :: "nat \<Rightarrow> 8 word" where
  "test_entropy n = word_of_nat (7 * n + 3)"

text \<open>
  Evidence records: one as passed to \<^verbatim>\<open>saveRecord\<close>, the same one a millisecond later, one
  with a typographic apostrophe (U+2019) in its content, and a record already in the store.
\<close>

definition test_evidence :: js_object where
  "test_evidence = evidence_record 1700000000000 (utf16 ''Incident'')
     (utf16 ''Incident at pickup'') (utf16 ''#Harassment'') None"

definition test_evidence_later :: js_object where
  "test_evidence_later = evidence_record 1700000000001 (utf16 ''Incident'')
     (utf16 ''Incident at pickup'') (utf16 ''#Harassment'') None"

definition test_evidence_wide :: js_object where
  "test_evidence_wide = evidence_record 1700000000000 (utf16 ''Incident'')
     (utf16 ''He didn'' @ [0x2019] @ utf16 ''t come'') (utf16 ''#Harassment'') None"

definition test_fallback_hash :: string where
  "test_fallback_hash = ''eyJ0aW1lc3RhbXAiOjE3MDAwMDAwMDAwMDAsInR5cGUiOiJJbmNpZGVudCIsImNv''"

definition test_earlier_record :: js_object where
  "test_earlier_record =
     [(''timestamp'', PNum 1690000000000), (''type'', PStr (utf16 ''Note'')),
      (''content'', PStr (utf16 ''First entry'')), (''tags'', PStr (utf16 ''#Log'')),
      (''hash'', PStr (utf16 ''00'')), (''id'', PNum 7)]"

text \<open>
  The JSON text of the first two, and of the first as it is stored with the id 8 and taken
  without its \<^verbatim>\<open>hash\<close>; the hash of the first under the digest of the test double; and the first
  as \<^verbatim>\<open>saveRecord\<close> stores it after the earlier record.
\<close>

definition test_evidence_json :: string where
  \<open>test_evidence_json =
     ''{"timestamp":1700000000000,"type":"Incident","content":"Incident at pickup","tags":"#Harassment"}''\<close>

definition test_evidence_later_json :: string where
  \<open>test_evidence_later_json =
     ''{"timestamp":1700000000001,"type":"Incident","content":"Incident at pickup","tags":"#Harassment"}''\<close>

definition test_evidence_stored_json :: string where
  \<open>test_evidence_stored_json =
     ''{"timestamp":1700000000000,"type":"Incident","content":"Incident at pickup","tags":"#Harassment","id":8}''\<close>

definition test_digest_hash :: string where
  "test_digest_hash = concat (replicate 32 ''2e'')"

definition test_evidence_stored :: js_object where
  "test_evidence_stored =
     test_evidence @ [(''hash'', PStr (utf16 test_digest_hash)), (''id'', PNum 8)]"

text \<open>
  On a page without \<^verbatim>\<open>crypto.subtle\<close>: the first record as stored, and the stored record with
  its content changed afterwards.
\<close>

definition test_evidence_fallback_stored :: js_object where
  "test_evidence_fallback_stored =
     test_evidence @ [(''hash'', PStr (utf16 test_fallback_hash)), (''id'', PNum 8)]"

definition test_evidence_altered :: js_object where
  "test_evidence_altered =
     evidence_record 1700000000000 (utf16 ''Incident'') (utf16 ''Nothing happened'')
       (utf16 ''#Harassment'') None
     @ [(''hash'', PStr (utf16 test_fallback_hash)), (''id'', PNum 8)]"

definition test_evidence_altered_json :: string where
  \<open>test_evidence_altered_json =
     ''{"timestamp":1700000000000,"type":"Incident","content":"Nothing happened","tags":"#Harassment","id":8}''\<close>



text \<open>The envelope that \<^verbatim>\<open>createBackup\<close> makes of the test data.\<close>

definition test_envelope :: EncryptedBackup where
  "test_envelope = \<lparr>eb_version = ''1.0'', salt = ''AwoRGB8mLTQ7QklQV15lbA=='',
     iv = ''c3qBiI+WnaSrsrnA'', data = ''fHRvYnF0aXB1fmNvcnJzeoGIj5adpKuyucA=''\<rparr>"

text \<open>
  The test envelope with one bit of its \<^verbatim>\<open>data\<close> flipped: the last byte of the ciphertext is
  193 in place of 192, so that the base64 text ends in \<^verbatim>\<open>ucE=\<close> in place of \<^verbatim>\<open>ucA=\<close>.
\<close>

definition test_envelope_flipped :: EncryptedBackup where
  "test_envelope_flipped = test_envelope\<lparr>data := ''fHRvYnF0aXB1fmNvcnJzeoGIj5adpKuyucE=''\<rparr>"

section \<open>\<^verbatim>\<open>atob\<close> inverts \<^verbatim>\<open>btoa\<close>\<close>

lemma b64_value_b64_char: "n < 64 \<Longrightarrow> b64_value (b64_char n) = Some n"
  by (auto simp: b64_value_def b64_char_def Let_def)

lemma b64_char_not_pad: "b64_char n \<noteq> CHR ''=''"
proof
  assume "b64_char n = CHR ''=''"
  then have "(of_char (b64_char n) :: nat) = 61" by simp
  then show False by (auto simp: b64_char_def split: if_splits)
qed

lemma b64_char_not_ws: "\<not> ascii_whitespace (b64_char n)"
  by (auto simp: ascii_whitespace_def b64_char_def)

lemma b64_padding_simps:
  "b64_padding (a # b # c # rest) = b64_padding rest"
  "b64_padding [a, b] = [CHR ''='']"
  "b64_padding [a] = [CHR ''='', CHR ''='']"
  "b64_padding [] = []"
proof -
  have "Suc (Suc (Suc (length rest))) mod 3 = length rest mod 3" by presburger
  then show "b64_padding (a # b # c # rest) = b64_padding rest" by (simp add: b64_padding_def)
  show "b64_padding [a, b] = [CHR ''='']" by (simp add: b64_padding_def)
  have "replicate 2 (CHR ''='') = [CHR ''='', CHR ''='']" by (simp add: numeral_2_eq_2)
  then show "b64_padding [a] = [CHR ''='', CHR ''='']" by (simp add: b64_padding_def)
  show "b64_padding [] = []" by (simp add: b64_padding_def)
qed

lemma encode_decomp:
  "b64_encode_groups xs = map b64_char (b64_sextets xs) @ b64_padding xs"
  by (induction xs rule: b64_encode_groups.induct) (simp_all add: b64_padding_simps)

lemma sextets_length: "length (b64_sextets xs) mod 4 \<noteq> 1"
  by (induction xs rule: b64_sextets.induct) simp_all

lemma sextets_bound: "\<forall>x \<in> set xs. x < 256 \<Longrightarrow> \<forall>s \<in> set (b64_sextets xs). s < 64"
  by (induction xs rule: b64_sextets.induct) (auto simp: less_mult_imp_div_less)

lemma those_values: "\<forall>s \<in> set ss. s < 64 \<Longrightarrow> those (map b64_value (map b64_char ss)) = Some ss"
  by (induction ss) (simp_all add: b64_value_b64_char)

lemma div_add_small: "(q::nat) < n \<Longrightarrow> (m * n + q) div n = m"
  by simp
lemma mod_add_small: "(q::nat) < n \<Longrightarrow> (m * n + q) mod n = q"
  by simp
lemma b64_q16: "(b::nat) < 256 \<Longrightarrow> b div 16 < 16"
  by (simp add: less_mult_imp_div_less)
lemma b64_q64: "(c::nat) < 256 \<Longrightarrow> c div 64 < 4"
  by (simp add: less_mult_imp_div_less)

lemma b64_arith1: "(b::nat) < 256 \<Longrightarrow> a div 4 * 4 + (a mod 4 * 16 + b div 16) div 16 = a"
  by (simp add: div_add_small b64_q16)
lemma b64_arith2: "(b::nat) < 256 \<Longrightarrow> c < 256 \<Longrightarrow> (a mod 4 * 16 + b div 16) mod 16 * 16 + (b mod 16 * 4 + c div 64) div 4 = b"
  by (simp add: div_add_small mod_add_small b64_q16 b64_q64)
lemma b64_arith3: "(c::nat) < 256 \<Longrightarrow> (b mod 16 * 4 + c div 64) mod 4 * 64 + c mod 64 = c"
  by (simp add: mod_add_small b64_q64)
lemma b64_arith4: "(b::nat) < 256 \<Longrightarrow> (a mod 4 * 16 + b div 16) mod 16 * 16 + (b mod 16 * 4) div 4 = b"
  by (simp add: mod_add_small b64_q16)
lemma b64_arith5: "(a::nat) div 4 * 4 + (a mod 4 * 16) div 16 = a"
  by simp

lemma decode_sextets: "\<forall>x \<in> set xs. x < 256 \<Longrightarrow> b64_decode_groups (b64_sextets xs) = xs"
proof (induction xs rule: b64_sextets.induct)
  case (1 a b c rest)
  then have b: "b < 256" and c: "c < 256" and IH: "b64_decode_groups (b64_sextets rest) = rest"
    by simp_all
  show ?case
    by (simp only: b64_sextets.simps b64_decode_groups.simps append.simps IH
        b64_arith1 [OF b] b64_arith2 [OF b c] b64_arith3 [OF c])
next
  case (2 a b)
  then have b: "b < 256" by simp
  show ?case
    by (simp only: b64_sextets.simps b64_decode_groups.simps b64_arith1 [OF b] b64_arith4 [OF b])
next
  case (3 a)
  show ?case by (simp only: b64_sextets.simps b64_decode_groups.simps b64_arith5)
next
  case 4
  show ?case by simp
qed

lemma encode_length: "length (b64_encode_groups xs) mod 4 = 0"
  by (induction xs rule: b64_encode_groups.induct) simp_all

lemma padding_cases: "b64_padding xs = [] \<or> b64_padding xs = [CHR ''=''] \<or> b64_padding xs = [CHR ''='', CHR ''='']"
  by (induction xs rule: b64_sextets.induct) (simp_all add: b64_padding_simps)

lemma strip_padding_body:
  assumes nopad: "CHR ''='' \<notin> set body"
    and pad: "pad = [] \<or> pad = [CHR ''=''] \<or> pad = [CHR ''='', CHR ''='']"
    and len: "length (body @ pad) mod 4 = 0"
  shows "strip_padding (body @ pad) = body"
proof -
  have no_tail: "drop k body \<noteq> [CHR ''='']" "drop k body \<noteq> [CHR ''='', CHR ''='']" for k
    using nopad in_set_dropD [of "CHR ''=''" k body] by (metis list.set_intros(1))+
  from pad consider "pad = []" | "pad = [CHR ''='']" | "pad = [CHR ''='', CHR ''='']" by blast
  then show ?thesis
  proof cases
    case 1
    then show ?thesis using no_tail by (simp add: strip_padding_def)
  next
    case 2
    then show ?thesis using no_tail [of "length body - 1"] len
      by (auto simp: strip_padding_def)
  next
    case 3
    then show ?thesis using len by (simp add: strip_padding_def)
  qed
qed

lemma pad_not_ws: "\<not> ascii_whitespace (CHR ''='')"
  by (simp add: ascii_whitespace_def)

lemma encode_no_ws: "filter (\<lambda>c. \<not> ascii_whitespace c) (b64_encode_groups xs) = b64_encode_groups xs"
  by (induction xs rule: b64_encode_groups.induct) (simp_all add: b64_char_not_ws pad_not_ws)

lemma atob_btoa: "forgiving_base64_decode (btoa s) = Some s"
proof -
  let ?xs = "map of_char s :: nat list"
  let ?body = "map b64_char (b64_sextets ?xs)"
  have bound: "\<forall>x \<in> set ?xs. x < 256" by simp
  have enc: "b64_encode_groups ?xs = ?body @ b64_padding ?xs" by (rule encode_decomp)
  have nopad: "CHR ''='' \<notin> set ?body" by (auto simp: b64_char_not_pad [symmetric])
  have strip: "strip_padding (b64_encode_groups ?xs) = ?body"
    unfolding enc using nopad padding_cases encode_length [of ?xs, unfolded enc]
    by (rule strip_padding_body)
  have len: "length ?body mod 4 \<noteq> 1" using sextets_length [of ?xs] by simp
  have vals: "those (map b64_value ?body) = Some (b64_sextets ?xs)"
    using sextets_bound [OF bound] by (rule those_values)
  have chars: "map char_of ?xs = s" by (simp add: comp_def)
  show ?thesis
    unfolding forgiving_base64_decode_def btoa_def encode_no_ws strip Let_def
    using len vals decode_sextets [OF bound] chars by simp
qed

section \<open>Properties of the merge\<close>

lemma merge_loop_filter:
  "merge_loop ids acc cloud = acc @ filter (\<lambda>r. rec_id r \<notin> ids) cloud"
  by (induction cloud arbitrary: acc) simp_all

lemma mergeRecords_filter:
  "mergeRecords localRecords cloudRecords =
     localRecords @ filter (\<lambda>r. rec_id r \<notin> rec_id ` set localRecords) cloudRecords"
  by (simp add: mergeRecords_def merge_loop_filter)

lemma filter_own_ids_empty: "filter (\<lambda>r. rec_id r \<notin> rec_id ` set S) S = []"
  by (simp add: filter_empty_conv)

text \<open>
  Claim C6. Merging a list of records with itself gives the list back unchanged, both for
  the merge loop alone and for the merge step of \<^verbatim>\<open>sync\<close> as a whole.
\<close>

theorem merge_idempotent:
  "mergeRecords S S = S \<and> sync_recordsToUpload S (Some S) = S"
  by (simp add: sync_recordsToUpload_def mergeRecords_filter filter_own_ids_empty)

text \<open>
  Claim C7. When a local record \<open>x\<close> and a cloud record \<open>y\<close> share an id and differ, the
  records of the merged list with that id are exactly the local ones, in the local order (the
  local content is kept, the cloud copy is dropped), and every cloud record whose id no local
  record has is in the merged list.
\<close>

theorem merge_local_wins:
  assumes "x \<in> set localRecords" and "y \<in> set cloudRecords"
    and "rec_id y = rec_id x" and "y \<noteq> x"
  shows "filter (\<lambda>r. rec_id r = rec_id x) (mergeRecords localRecords cloudRecords)
           = filter (\<lambda>r. rec_id r = rec_id x) localRecords
       \<and> (y \<notin> set localRecords \<longrightarrow> y \<notin> set (mergeRecords localRecords cloudRecords))
       \<and> (\<forall>r \<in> set cloudRecords. rec_id r \<notin> rec_id ` set localRecords
             \<longrightarrow> r \<in> set (mergeRecords localRecords cloudRecords))"
proof -
  have "filter (\<lambda>r. rec_id r = rec_id x)
          (filter (\<lambda>r. rec_id r \<notin> rec_id ` set localRecords) cloudRecords) = []"
    using assms(1) by (auto simp: filter_empty_conv)
  moreover have "y \<notin> set (filter (\<lambda>r. rec_id r \<notin> rec_id ` set localRecords) cloudRecords)"
    using assms(1,3) by auto
  ultimately show ?thesis
    by (auto simp: mergeRecords_filter)
qed

text \<open>The theorem on test data: a local and a cloud record with the id \<^verbatim>\<open>r1\<close>.\<close>

lemma test_records_differ:
  "test_record_cloud \<noteq> test_record" "test_record_cloud \<noteq> test_record_2"
  "rec_id test_record_cloud = rec_id test_record"
  "rec_id test_record = ''r1''" "rec_id test_record_2 = ''r2''" "rec_id test_record_3 = ''r3''"
  by (simp_all add: test_record_cloud_def test_record_def test_record_2_def test_record_3_def)

theorem merge_local_wins_witness:
  "test_record \<in> set [test_record, test_record_2]
   \<and> test_record_cloud \<in> set [test_record_cloud, test_record_3]
   \<and> rec_id test_record_cloud = rec_id test_record
   \<and> test_record_cloud \<noteq> test_record
   \<and> mergeRecords [test_record, test_record_2] [test_record_cloud, test_record_3]
       = [test_record, test_record_2, test_record_3]
   \<and> filter (\<lambda>r. rec_id r = rec_id test_record)
         (mergeRecords [test_record, test_record_2] [test_record_cloud, test_record_3])
       = [test_record]
   \<and> test_record_cloud \<notin> set (mergeRecords [test_record, test_record_2] [test_record_cloud, test_record_3])
   \<and> test_record_3 \<in> set (mergeRecords [test_record, test_record_2] [test_record_cloud, test_record_3])"
proof -
  have m: "mergeRecords [test_record, test_record_2] [test_record_cloud, test_record_3]
             = [test_record, test_record_2, test_record_3]"
    by (simp add: mergeRecords_def test_records_differ)
  have h1: "test_record \<in> set [test_record, test_record_2]" by simp
  have h2: "test_record_cloud \<in> set [test_record_cloud, test_record_3]" by simp
  from merge_local_wins [OF h1 h2 test_records_differ(3) test_records_differ(1)]
  show ?thesis
    using m by (simp add: test_records_differ)
qed

section \<open>Backup and restore\<close>

lemma bytes_of_binary_string:
  "map (\<lambda>c. word_of_nat (of_char c)) (map (\<lambda>b. char_of (unat b)) (bytes :: 8 word list)) = bytes"
proof -
  have "word_of_nat (of_char (char_of (unat b))) = b" for b :: "8 word"
  proof -
    have "unat b < 2 ^ 8" using unsigned_less [of b] by simp
    then have "unat b mod 256 = unat b" by simp
    then show ?thesis by simp
  qed
  then show ?thesis by (simp add: comp_def map_idI)
qed

lemma base64_buffer_roundtrip:
  "base64ToArrayBuffer P (arrayBufferToBase64 bytes) = Inr bytes"
  by (simp add: base64ToArrayBuffer_def arrayBufferToBase64_def atob_def atob_btoa
      bytes_of_binary_string del: map_map)

lemma ensure_db_stores:
  "ensure_db s = (r, s') \<Longrightarrow>
     settings_store s' = settings_store s \<and> records_store s' = records_store s
     \<and> fails s' = fails s"
  by (auto simp: ensure_db_def initialize_def split: if_splits)









lemma test_gather:
  "gather_settings test_store = (Inr test_settings, test_store\<lparr>served := 5\<rparr>)"
  by (simp add: gather_settings_def and_then_def getSetting_def ensure_db_def test_store_def
      stored_setting_def test_settings_def)

lemma test_salt:
  "map test_entropy [0..<16] = [3, 10, 17, 24, 31, 38, 45, 52, 59, 66, 73, 80, 87, 94, 101, 108]"
  by (simp add: test_entropy_def upt_rec)

lemma test_iv:
  "map test_entropy [16..<28] = [115, 122, 129, 136, 143, 150, 157, 164, 171, 178, 185, 192]"
  by (simp add: test_entropy_def upt_rec)

lemma test_key:
  "deriveKey test_api ''correct-horse'' salt_bytes = Inr [99, 111, 114, 114]"
  by (simp add: deriveKey_def test_api_def)

lemma test_plain:
  "TextEncoder_encode test_api (JSON_stringify test_api test_snapshot)
     = [123, 115, 110, 97, 112, 115, 104, 111, 116, 125]"
  by (simp add: test_api_def test_stringify_def)

lemma test_cipher:
  "AES_GCM_encrypt test_api [99, 111, 114, 114]
     [115, 122, 129, 136, 143, 150, 157, 164, 171, 178, 185, 192]
     [123, 115, 110, 97, 112, 115, 104, 111, 116, 125]
   = Inr [124, 116, 111, 98, 113, 116, 105, 112, 117, 126, 99, 111, 114, 114,
          115, 122, 129, 136, 143, 150, 157, 164, 171, 178, 185, 192]"
  by (simp add: test_api_def test_encrypt_def test_tag_def)

lemma test_base64:
  "arrayBufferToBase64 [3, 10, 17, 24, 31, 38, 45, 52, 59, 66, 73, 80, 87, 94, 101, 108]
     = ''AwoRGB8mLTQ7QklQV15lbA==''"
  "arrayBufferToBase64 [115, 122, 129, 136, 143, 150, 157, 164, 171, 178, 185, 192]
     = ''c3qBiI+WnaSrsrnA''"
  "arrayBufferToBase64 [124, 116, 111, 98, 113, 116, 105, 112, 117, 126, 99, 111, 114, 114,
          115, 122, 129, 136, 143, 150, 157, 164, 171, 178, 185, 192]
     = ''fHRvYnF0aXB1fmNvcnJzeoGIj5adpKuyucA=''"
  by code_simp+

lemma test_createBackup:
  "createBackup test_api ''2024-01-06T09:00:00.000Z'' test_entropy ''correct-horse''
     [test_record] test_store = (Inr test_envelope, test_store\<lparr>served := 5\<rparr>)"
proof -
  have snap: "\<lparr>version = ''1.0'', exportDate = ''2024-01-06T09:00:00.000Z'',
                 records = [test_record], settings = test_settings\<rparr> = test_snapshot"
    by (simp add: test_snapshot_def)
  show ?thesis
    unfolding createBackup_def Let_def test_gather test_salt test_iv
    by (simp add: snap test_key test_plain test_cipher test_base64 test_envelope_def
        BACKUP_VERSION_def)
qed


text \<open>
  The salt and the IV of an envelope are the bytes drawn during the call, and the base64
  text determines the bytes.
\<close>

lemma arrayBufferToBase64_inj:
  assumes "arrayBufferToBase64 a = arrayBufferToBase64 b"
  shows "a = b"
proof -
  have "Inr a = base64ToArrayBuffer test_api (arrayBufferToBase64 a)"
    by (simp only: base64_buffer_roundtrip)
  also have "\<dots> = base64ToArrayBuffer test_api (arrayBufferToBase64 b)"
    by (simp only: assms)
  also have "\<dots> = Inr b"
    by (simp only: base64_buffer_roundtrip)
  finally show ?thesis by simp
qed

lemma createBackup_draws:
  assumes "createBackup P now entropy password recs s = (Inr envelope, s')"
  shows "salt envelope = arrayBufferToBase64 (map entropy [0..<16])
       \<and> iv envelope = arrayBufferToBase64 (map entropy [16..<28])
       \<and> eb_version envelope = BACKUP_VERSION"
proof -
  define salt_bytes where "salt_bytes = map entropy [0..<16]"
  define iv_bytes where "iv_bytes = map entropy [16..<28]"
  from assms show ?thesis
    unfolding createBackup_def Let_def salt_bytes_def [symmetric] iv_bytes_def [symmetric]
    by (auto split: if_splits prod.splits sum.splits)
qed

text \<open>
  Claim C5. A password of fewer than six characters, the empty password included, makes
  \<^verbatim>\<open>createBackup\<close> fail with \<open>PasswordTooWeak\<close> (\<^verbatim>\<open>'Password must be at least 6 characters'\<close>):
  no envelope is produced and the store is not touched.
\<close>

theorem createBackup_rejects_weak_password:
  "length password < 6 \<Longrightarrow>
     createBackup P now entropy password recs s = (Inl PasswordTooWeak, s)"
  by (simp add: createBackup_def)

theorem createBackup_rejects_weak_password_witness:
  "length ''horse'' < 6
   \<and> createBackup test_api ''2024-01-06T09:00:00.000Z'' test_entropy ''horse'' [test_record] test_store
       = (Inl PasswordTooWeak, test_store)
   \<and> length '''' < 6
   \<and> createBackup test_api ''2024-01-06T09:00:00.000Z'' test_entropy '''' [test_record] test_store
       = (Inl PasswordTooWeak, test_store)"
  using createBackup_rejects_weak_password
          [of "''horse''" test_api "''2024-01-06T09:00:00.000Z''" test_entropy "[test_record]" test_store]
        createBackup_rejects_weak_password
          [of "''''" test_api "''2024-01-06T09:00:00.000Z''" test_entropy "[test_record]" test_store]
  by simp

text \<open>
  What \<^verbatim>\<open>restoreBackup\<close> reports when its \<^verbatim>\<open>try\<close> block throws during decoding, key derivation
  or decryption is decided by the text of \<^verbatim>\<open>error.message\<close> alone; the empty password is
  turned away before the block.
\<close>

lemma restore_empty_password: "restoreBackup P [] encryptedBackup = Inl PasswordRequired"
  by (simp add: restoreBackup_def)

lemma restore_reports_by_message:
  assumes "password \<noteq> []" and "decrypt_envelope P password encryptedBackup = Inl err"
  shows "restoreBackup P password encryptedBackup
           = Inl (if instanceof_Error err \<and> str_includes (err_message err) ''OperationError''
                  then IncorrectPasswordOrCorrupted else RestoreFailed)"
  using assms by (simp add: restoreBackup_def restore_try_def restore_catch_def)

text \<open>
  The test envelope under the right password, under another password, and with a flipped bit
  under the right password. The test double rejects a wrong key and a wrong tag as the
  browsers do: with an \<^verbatim>\<open>OperationError\<close>, which is the \<^verbatim>\<open>name\<close> of the exception; its message
  does not contain that word.
\<close>

lemma test_envelope_buffers:
  "base64ToArrayBuffer P (salt test_envelope)
     = Inr [3, 10, 17, 24, 31, 38, 45, 52, 59, 66, 73, 80, 87, 94, 101, 108]"
  "base64ToArrayBuffer P (iv test_envelope)
     = Inr [115, 122, 129, 136, 143, 150, 157, 164, 171, 178, 185, 192]"
  "base64ToArrayBuffer P (data test_envelope)
     = Inr [124, 116, 111, 98, 113, 116, 105, 112, 117, 126, 99, 111, 114, 114,
            115, 122, 129, 136, 143, 150, 157, 164, 171, 178, 185, 192]"
  by (simp_all add: test_envelope_def test_base64 [symmetric] base64_buffer_roundtrip)

lemma test_flipped_base64:
  "arrayBufferToBase64 [124, 116, 111, 98, 113, 116, 105, 112, 117, 126, 99, 111, 114, 114,
          115, 122, 129, 136, 143, 150, 157, 164, 171, 178, 185, 193]
     = ''fHRvYnF0aXB1fmNvcnJzeoGIj5adpKuyucE=''"
  by code_simp

lemma test_flipped_buffers:
  "base64ToArrayBuffer P (salt test_envelope_flipped)
     = Inr [3, 10, 17, 24, 31, 38, 45, 52, 59, 66, 73, 80, 87, 94, 101, 108]"
  "base64ToArrayBuffer P (iv test_envelope_flipped)
     = Inr [115, 122, 129, 136, 143, 150, 157, 164, 171, 178, 185, 192]"
  "base64ToArrayBuffer P (data test_envelope_flipped)
     = Inr [124, 116, 111, 98, 113, 116, 105, 112, 117, 126, 99, 111, 114, 114,
            115, 122, 129, 136, 143, 150, 157, 164, 171, 178, 185, 193]"
  by (simp_all add: test_envelope_flipped_def test_envelope_def test_base64 [symmetric]
      test_flipped_base64 [symmetric] base64_buffer_roundtrip)

lemma test_wrong_key:
  "deriveKey test_api ''wrong-password'' salt_bytes = Inr [119, 114, 111, 110]"
  by (simp add: deriveKey_def test_api_def)

lemma test_decrypt_right_password:
  "decrypt_envelope test_api ''correct-horse'' test_envelope
     = Inr [123, 115, 110, 97, 112, 115, 104, 111, 116, 125]"
  by (simp add: decrypt_envelope_def test_envelope_buffers test_key)
     (simp add: test_api_def test_decrypt_def test_tag_def)

lemma test_restore_right_password:
  "restoreBackup test_api ''correct-horse'' test_envelope = Inr test_snapshot"
  by (simp add: restoreBackup_def restore_try_def test_decrypt_right_password)
     (simp add: test_api_def test_parse_def char_of_eq_iff)

lemma test_decrypt_wrong_password:
  "decrypt_envelope test_api ''wrong-password'' test_envelope = Inl operation_error"
  by (simp add: decrypt_envelope_def test_envelope_buffers test_wrong_key)
     (simp add: test_api_def test_decrypt_def test_tag_def)

lemma test_decrypt_flipped:
  "decrypt_envelope test_api ''correct-horse'' test_envelope_flipped = Inl operation_error"
  by (simp add: decrypt_envelope_def test_flipped_buffers test_key)
     (simp add: test_api_def test_decrypt_def test_tag_def)

lemma test_operation_error_class: "restore_catch operation_error = RestoreFailed"
  by (simp add: restore_catch_def operation_error_def)

text \<open>
  Claim C2. The test envelope is made with the password \<^verbatim>\<open>correct-horse\<close>, and that password
  restores it. Restoring it with another password, and restoring the envelope with one bit of
  its \<^verbatim>\<open>data\<close> flipped, makes the authenticated decryption throw an \<^verbatim>\<open>OperationError\<close>; no
  plaintext is returned in either case, but \<^verbatim>\<open>restoreBackup\<close> fails with \<open>RestoreFailed\<close>
  (\<^verbatim>\<open>'Failed to restore backup'\<close>) and not with \<open>IncorrectPasswordOrCorrupted\<close>
  (\<^verbatim>\<open>'Incorrect password or corrupted backup file'\<close>): the \<^verbatim>\<open>catch\<close> block looks for the word
  \<^verbatim>\<open>OperationError\<close> in \<^verbatim>\<open>error.message\<close>, and it is the \<^verbatim>\<open>name\<close> of the exception.
\<close>

theorem restore_misreports_operation_error:
  "createBackup test_api ''2024-01-06T09:00:00.000Z'' test_entropy ''correct-horse''
     [test_record] test_store = (Inr test_envelope, test_store\<lparr>served := 5\<rparr>)
   \<and> restoreBackup test_api ''correct-horse'' test_envelope = Inr test_snapshot
   \<and> decrypt_envelope test_api ''wrong-password'' test_envelope = Inl operation_error
   \<and> err_name operation_error = ''OperationError''
   \<and> restoreBackup test_api ''wrong-password'' test_envelope = Inl RestoreFailed
   \<and> data test_envelope_flipped \<noteq> data test_envelope
   \<and> decrypt_envelope test_api ''correct-horse'' test_envelope_flipped = Inl operation_error
   \<and> restoreBackup test_api ''correct-horse'' test_envelope_flipped = Inl RestoreFailed"
proof -
  have "restoreBackup test_api ''wrong-password'' test_envelope = Inl RestoreFailed"
    by (simp add: restoreBackup_def restore_try_def test_decrypt_wrong_password
        test_operation_error_class)
  moreover have "restoreBackup test_api ''correct-horse'' test_envelope_flipped = Inl RestoreFailed"
    by (simp add: restoreBackup_def restore_try_def test_decrypt_flipped
        test_operation_error_class)
  moreover have "err_name operation_error = ''OperationError''"
    by (simp add: operation_error_def)
  moreover have "data test_envelope_flipped \<noteq> data test_envelope"
    by (simp add: test_envelope_flipped_def test_envelope_def)
  ultimately show ?thesis
    using test_createBackup test_restore_right_password test_decrypt_wrong_password
      test_decrypt_flipped
    by simp
qed

section \<open>The record store\<close>

lemma set_insert_by_key: "set (insert_by_key r xs) = insert r (set xs)"
  by (induction xs) auto

lemma run_adds_set:
  "run_requests f n (map Add recs) store = (Inr store', m) \<Longrightarrow> set store' = set store \<union> set recs"
proof (induction recs arbitrary: store n)
  case Nil
  then show ?case by simp
next
  case (Cons r recs)
  from Cons.prems have ok: "\<not> f n" "rec_id r \<notin> set (map rec_id store)"
    and rest: "run_requests f (Suc n) (map Add recs) (insert_by_key r store) = (Inr store', m)"
    by (auto split: if_splits)
  from Cons.IH [OF rest] show ?case by (simp add: set_insert_by_key)
qed

lemma run_clear_adds_set:
  "run_requests f n (Clear # map Add recs) store = (Inr store', m) \<Longrightarrow> set store' = set recs"
  using run_adds_set [of f "Suc n" recs "[]" store' m] by (auto split: if_splits)

lemma saveRecords_effect:
  assumes "saveRecords recs s = (r, s1)"
  shows "settings_store s1 = settings_store s
       \<and> ((\<exists>e. r = Inl e) \<and> records_store s1 = records_store s
           \<or> r = Inr () \<and> set (records_store s1) = set recs)"
proof -
  obtain r0 s0 where e: "ensure_db s = (r0, s0)" by (cases "ensure_db s")
  note st = ensure_db_stores [OF e]
  show ?thesis
  proof (cases r0)
    case (Inl err)
    with assms e st show ?thesis by (auto simp: saveRecords_def)
  next
    case (Inr u)
    obtain res m where run: "run_requests (fails s0) (served s0) (Clear # map Add recs)
        (records_store s0) = (res, m)"
      by (cases "run_requests (fails s0) (served s0) (Clear # map Add recs) (records_store s0)")
    have eq: "saveRecords recs s =
        (case res of Inl e \<Rightarrow> (Inl e, s0\<lparr>served := m\<rparr>)
         | Inr store' \<Rightarrow> (Inr (), s0\<lparr>records_store := store', served := m\<rparr>))"
      using e Inr run by (simp add: saveRecords_def del: run_requests.simps)
    show ?thesis
    proof (cases res)
      case (Inl err)
      with assms eq st show ?thesis by auto
    next
      case (Inr store')
      with run have "run_requests (fails s0) (served s0) (Clear # map Add recs)
          (records_store s0) = (Inr store', m)" by (simp del: run_requests.simps)
      then have "set store' = set recs" by (rule run_clear_adds_set)
      with assms eq Inr st show ?thesis by auto
    qed
  qed
qed

lemma getRecords_result:
  assumes "getRecords s = (Inr got, s')"
  shows "got = records_store s"
proof -
  obtain r0 s0 where e: "ensure_db s = (r0, s0)" by (cases "ensure_db s")
  from ensure_db_stores [OF e] assms e show ?thesis
    by (auto simp: getRecords_def split: sum.splits if_splits)
qed

text \<open>
  Claim C8. \<^verbatim>\<open>saveRecords\<close> is all or nothing. Whatever the store held, whatever records
  are passed and whichever request the platform fails, a \<^verbatim>\<open>getRecords\<close> that follows returns
  the old records when \<^verbatim>\<open>saveRecords\<close> failed and exactly the new records when it succeeded:
  never part of one and part of the other. The clear and every add are requests of one
  transaction, which aborts as a whole.
\<close>

theorem saveRecords_all_or_nothing:
  assumes "saveRecords new_records s = (r, s1)" and "getRecords s1 = (Inr got, s2)"
  shows "(\<exists>e. r = Inl e) \<and> got = records_store s \<or> r = Inr () \<and> set got = set new_records"
  using saveRecords_effect [OF assms(1)] getRecords_result [OF assms(2)] by auto

text \<open>
  The theorem on the test store twice: the third request (the second add) fails and the old
  record is still there; no request fails and the two new records are there.
\<close>

lemma test_save_fails:
  "saveRecords [test_record_2, test_record_3] test_store_failing
     = (Inl UnknownError, test_store_failing\<lparr>served := 3\<rparr>)"
  by (simp add: saveRecords_def ensure_db_def test_store_failing_def test_store_def
      test_records_differ)

lemma test_get_after_failure:
  "getRecords (test_store_failing\<lparr>served := 3\<rparr>)
     = (Inr [test_record], test_store_failing\<lparr>served := 4\<rparr>)"
  by (simp add: getRecords_def ensure_db_def test_store_failing_def test_store_def)

lemma test_save_succeeds:
  "saveRecords [test_record_3, test_record_2] test_store
     = (Inr (), test_store\<lparr>records_store := [test_record_2, test_record_3], served := 3\<rparr>)"
  by (simp add: saveRecords_def ensure_db_def test_store_def test_records_differ)

lemma test_get_after_success:
  "getRecords (test_store\<lparr>records_store := [test_record_2, test_record_3], served := 3\<rparr>)
     = (Inr [test_record_2, test_record_3],
        test_store\<lparr>records_store := [test_record_2, test_record_3], served := 4\<rparr>)"
  by (simp add: getRecords_def ensure_db_def test_store_def)

theorem saveRecords_all_or_nothing_witness:
  "saveRecords [test_record_2, test_record_3] test_store_failing
     = (Inl UnknownError, test_store_failing\<lparr>served := 3\<rparr>)
   \<and> getRecords (test_store_failing\<lparr>served := 3\<rparr>)
     = (Inr [test_record], test_store_failing\<lparr>served := 4\<rparr>)
   \<and> [test_record] = records_store test_store_failing
   \<and> saveRecords [test_record_3, test_record_2] test_store
     = (Inr (), test_store\<lparr>records_store := [test_record_2, test_record_3], served := 3\<rparr>)
   \<and> getRecords (test_store\<lparr>records_store := [test_record_2, test_record_3], served := 3\<rparr>)
     = (Inr [test_record_2, test_record_3],
        test_store\<lparr>records_store := [test_record_2, test_record_3], served := 4\<rparr>)
   \<and> set [test_record_2, test_record_3] = set [test_record_3, test_record_2]"
  using saveRecords_all_or_nothing [OF test_save_fails test_get_after_failure]
        saveRecords_all_or_nothing [OF test_save_succeeds test_get_after_success]
        test_save_fails test_get_after_failure test_save_succeeds test_get_after_success
  by auto

section \<open>Applying a backup\<close>











section \<open>The integrity hash\<close>

text \<open>
  \<^verbatim>\<open>JSON.stringify\<close> of the object passed to \<^verbatim>\<open>saveRecord\<close> is \<open>evidence_text\<close>, and of the
  stored object without its \<^verbatim>\<open>hash\<close> it is \<open>evidence_text_with_id\<close>.
\<close>

lemmas text_eval = utf16_def json_quote_def json_escape_unit_def is_leading_surrogate_def
  is_trailing_surrogate_def

lemma stringify_evidence:
  "JSON_stringify_object (evidence_record ts ty c tg att) = evidence_text ts ty c tg att"
  by (cases att)
     (simp_all add: JSON_stringify_object_def evidence_record_def evidence_text_def
        evidence_members_def text_eval)

lemma stringify_evidence_with_id:
  "JSON_stringify_object (evidence_record ts ty c tg att @ [(''id'', PNum n)])
     = evidence_text_with_id ts ty c tg att n"
  by (cases att)
     (simp_all add: JSON_stringify_object_def evidence_record_def evidence_text_with_id_def
        evidence_members_def text_eval)

text \<open>
  The decimal text determines the number, so the timestamp can be read off the JSON text; and
  the hexadecimal text determines the digest.
\<close>

lemma decimal_not_empty: "decimal n \<noteq> []"
  by (induction n rule: decimal.induct) (simp split: if_splits)

lemma digit_inj: "a < 10 \<Longrightarrow> b < 10 \<Longrightarrow> char_of (48 + a :: nat) = char_of (48 + b) \<Longrightarrow> a = b"
  by simp

lemma decimal_inj: "decimal n = decimal m \<Longrightarrow> n = m"
proof (induction n arbitrary: m rule: decimal.induct)
  case (1 n)
  show ?case
  proof (cases "n < 10")
    case small: True
    show ?thesis
    proof (cases "m < 10")
      case True
      with small "1.prems" show ?thesis
        by (simp add: decimal.simps [of n] decimal.simps [of m])
    next
      case False
      with small "1.prems" decimal_not_empty [of "m div 10"] show ?thesis
        by (simp add: decimal.simps [of n] decimal.simps [of m])
    qed
  next
    case big: False
    show ?thesis
    proof (cases "m < 10")
      case True
      with big "1.prems" decimal_not_empty [of "n div 10"] show ?thesis
        by (simp add: decimal.simps [of n] decimal.simps [of m])
    next
      case False
      with big "1.prems" have front: "decimal (n div 10) = decimal (m div 10)"
        and last_digit: "char_of (48 + n mod 10) = char_of (48 + m mod 10)"
        by (simp_all add: decimal.simps [of n] decimal.simps [of m])
      from "1.IH" [OF big front] have "n div 10 = m div 10" .
      moreover from last_digit have "n mod 10 = m mod 10"
        by (intro digit_inj) simp_all
      ultimately show ?thesis by (metis div_mult_mod_eq)
    qed
  qed
qed

lemma decimal_no_minus: "CHR ''-'' \<notin> set (decimal n)"
proof (induction n rule: decimal.induct)
  case (1 n)
  have digit: "char_of (48 + k :: nat) \<noteq> CHR ''-''" if "k < 10" for k
    using that by (simp add: char_of_eq_iff take_bit_nat_eq_self)
  show ?case
  proof (cases "n < 10")
    case True
    then show ?thesis using digit [of n] by (simp add: decimal.simps [of n])
  next
    case False
    then show ?thesis using "1.IH" digit [of "n mod 10"] by (simp add: decimal.simps [of n])
  qed
qed

lemma number_to_string_inj: "number_to_string i = number_to_string j \<Longrightarrow> i = j"
proof -
  assume eq: "number_to_string i = number_to_string j"
  have head: "hd (decimal n) \<noteq> CHR ''-''" for n
    using decimal_no_minus [of n] decimal_not_empty [of n] by (cases "decimal n") auto
  show ?thesis
  proof (cases "i < 0")
    case neg: True
    show ?thesis
    proof (cases "j < 0")
      case True
      with neg eq have "decimal (nat (- i)) = decimal (nat (- j))"
        by (simp add: number_to_string_def)
      from decimal_inj [OF this] neg True show ?thesis by simp
    next
      case False
      with neg eq have "CHR ''-'' # decimal (nat (- i)) = decimal (nat j)"
        by (simp add: number_to_string_def)
      with head [of "nat j"] show ?thesis by (metis list.sel(1))
    qed
  next
    case pos: False
    show ?thesis
    proof (cases "j < 0")
      case True
      with pos eq have "decimal (nat i) = CHR ''-'' # decimal (nat (- j))"
        by (simp add: number_to_string_def)
      with head [of "nat i"] show ?thesis by (metis list.sel(1))
    next
      case False
      with pos eq have "decimal (nat i) = decimal (nat j)"
        by (simp add: number_to_string_def)
      from decimal_inj [OF this] pos False show ?thesis by simp
    qed
  qed
qed

lemma utf16_inj: "utf16 s = utf16 t \<Longrightarrow> s = t"
proof -
  have "inj (\<lambda>c. word_of_nat (of_char c) :: 16 word)"
  proof (rule injI)
    fix c d :: char
    assume "(word_of_nat (of_char c) :: 16 word) = word_of_nat (of_char d)"
    then have "unat (word_of_nat (of_char c) :: 16 word) = unat (word_of_nat (of_char d) :: 16 word)"
      by simp
    moreover have "(of_char x :: nat) < 2 ^ 16" for x
    proof -
      have "(of_char x :: nat) < 256" by simp
      also have "(256 :: nat) < 2 ^ 16" by simp
      finally show ?thesis .
    qed
    ultimately have "(of_char c :: nat) = of_char d"
      by (simp add: unsigned_of_nat take_bit_nat_eq_self)
    then show "c = d" by simp
  qed
  then show "utf16 s = utf16 t \<Longrightarrow> s = t"
    by (simp add: utf16_def inj_map_eq_map)
qed

lemma evidence_text_timestamp:
  assumes "ts' \<noteq> ts"
  shows "evidence_text ts' ty c tg att \<noteq> evidence_text ts ty c tg att"
proof
  assume "evidence_text ts' ty c tg att = evidence_text ts ty c tg att"
  then have "utf16 (number_to_string ts') = utf16 (number_to_string ts)"
    by (simp add: evidence_text_def evidence_members_def)
  then have "ts' = ts" by (auto dest: utf16_inj number_to_string_inj)
  with assms show False by simp
qed

lemma hex_digit_inj: "a < 16 \<Longrightarrow> b < 16 \<Longrightarrow> hex_digit a = hex_digit b \<Longrightarrow> a = b"
  by (auto simp: hex_digit_def split: if_splits)

lemma byte_from_nibbles:
  assumes "unat (a :: 8 word) div 16 = unat (b :: 8 word) div 16"
    and "unat a mod 16 = unat b mod 16"
  shows "a = b"
proof -
  have "unat a = unat a div 16 * 16 + unat a mod 16" by simp
  also have "\<dots> = unat b div 16 * 16 + unat b mod 16" using assms by simp
  also have "\<dots> = unat b" by simp
  finally show ?thesis by (simp add: word_unat_eq_iff)
qed

lemma to_hex_inj: "to_hex xs = to_hex ys \<Longrightarrow> xs = ys"
proof (induction xs arbitrary: ys)
  case Nil
  then show ?case by (cases ys) (simp_all add: to_hex_def)
next
  case (Cons a xs)
  then obtain b ys' where ys: "ys = b # ys'" by (cases ys) (auto simp: to_hex_def)
  from Cons.prems ys have hi: "hex_digit (unat a div 16) = hex_digit (unat b div 16)"
    and lo: "hex_digit (unat a mod 16) = hex_digit (unat b mod 16)"
    and rest: "to_hex xs = to_hex ys'"
    by (simp_all add: to_hex_def)
  have bound: "unat w div 16 < 16" for w :: "8 word"
    using unsigned_less [of w, where 'a = nat] by (simp add: less_mult_imp_div_less)
  from hex_digit_inj [OF bound bound hi] hex_digit_inj [OF _ _ lo]
  have "a = b" by (simp add: byte_from_nibbles)
  with Cons.IH [OF rest] ys show ?case by simp
qed

lemma hex_text_inj: "utf16 (to_hex xs) = utf16 (to_hex ys) \<longleftrightarrow> xs = ys"
  by (auto dest: utf16_inj to_hex_inj)

text \<open>
  What \<^verbatim>\<open>saveRecord\<close> stores for an evidence record, and the two branches of
  \<^verbatim>\<open>generateHash\<close>.
\<close>

lemma evidence_record_keys:
  "''hash'' \<notin> set (map fst (evidence_record ts ty c tg att))"
  "''id'' \<notin> set (map fst (evidence_record ts ty c tg att))"
  by (cases att; simp add: evidence_record_def)+

lemma evidence_record_kept:
  "json_kept (evidence_record ts ty c tg att @ [(''hash'', PStr h), (''id'', PNum n)])
     = evidence_record ts ty c tg att @ [(''hash'', PStr h), (''id'', PNum n)]"
  by (cases att) (simp_all add: json_kept_def evidence_record_def)

lemma evidence_record_without_hash:
  "without_property (evidence_record ts ty c tg att @ [(''hash'', PStr h), (''id'', PNum n)]) ''hash''
     = evidence_record ts ty c tg att @ [(''id'', PNum n)]"
  by (cases att) (simp_all add: without_property_def evidence_record_def)

lemma evidence_record_stored_properties:
  "get_property (evidence_record ts ty c tg att @ [(''hash'', PStr h), (''id'', PNum n)]) ''hash'' = PStr h"
  "get_property (evidence_record ts ty c tg att @ [(''hash'', PStr h), (''id'', PNum n)]) ''id'' = PNum n"
  by (cases att; simp add: get_property_def evidence_record_def)+

lemma saveRecord_evidence:
  assumes "generateHash P (evidence_record ts ty c tg att) = Inr h"
  shows "saveRecord P (evidence_record ts ty c tg att) stored =
           Inr (if length stored > 0 then max_of (map record_id_or_0 stored) + 1 else 1,
                map json_kept stored
                @ [evidence_record ts ty c tg att
                   @ [(''hash'', PStr h),
                      (''id'', PNum (if length stored > 0
                                     then max_of (map record_id_or_0 stored) + 1 else 1))]])"
  using assms evidence_record_keys [of ts ty c tg att]
  by (simp add: saveRecord_def saveToLocalStorage_def Let_def set_property_def
      evidence_record_kept)

lemma generateHash_subtle:
  "has_crypto_subtle P \<Longrightarrow>
     generateHash P record = Inr (utf16 (to_hex (digest_SHA256 P (utf8_encode (JSON_stringify_object record)))))"
  by (simp add: generateHash_def)

lemma generateHash_fallback:
  "\<not> has_crypto_subtle P \<Longrightarrow>
     generateHash P record =
       (if \<exists>u \<in> set (JSON_stringify_object record). 255 < unat u then Inl InvalidCharacterError
        else Inr (take 64 (utf16 (btoa (map (\<lambda>u. char_of (unat u)) (JSON_stringify_object record))))))"
  by (simp add: generateHash_def btoa_text_def)

text \<open>
  Claim C3, as the code has it. The hash of a record being saved is computed from the text
  \<^verbatim>\<open>{"timestamp":..,"type":"..","content":"..","tags":".."[,"attachments":".."]}\<close>: with
  \<^verbatim>\<open>crypto.subtle\<close> it is the hexadecimal SHA-256 digest of the UTF-8 bytes of that text, and
  without it the first 64 characters of the base64 form of that text, or a rejection with
  \<^verbatim>\<open>InvalidCharacterError\<close> when the text has a code unit above 255. The timestamp is part of
  the text: records that differ in the timestamp alone have different texts, and their
  hashes are equal only if SHA-256 gives the two texts the same digest. The hash stored with
  the record is this hash, whatever the store holds and whatever id the record is given.
\<close>

theorem content_hash_input:
  "(has_crypto_subtle P \<longrightarrow>
      generateHash P (evidence_record ts ty c tg att)
        = Inr (utf16 (to_hex (digest_SHA256 P (utf8_encode (evidence_text ts ty c tg att))))))
   \<and> (\<not> has_crypto_subtle P \<longrightarrow>
      generateHash P (evidence_record ts ty c tg att)
        = (if \<exists>u \<in> set (evidence_text ts ty c tg att). 255 < unat u
           then Inl InvalidCharacterError
           else Inr (take 64 (utf16 (btoa (map (\<lambda>u. char_of (unat u))
                                          (evidence_text ts ty c tg att)))))))
   \<and> (ts' \<noteq> ts \<longrightarrow> evidence_text ts' ty c tg att \<noteq> evidence_text ts ty c tg att)
   \<and> (has_crypto_subtle P \<longrightarrow>
        (generateHash P (evidence_record ts' ty c tg att) = generateHash P (evidence_record ts ty c tg att)
         \<longleftrightarrow> digest_SHA256 P (utf8_encode (evidence_text ts' ty c tg att))
               = digest_SHA256 P (utf8_encode (evidence_text ts ty c tg att))))
   \<and> (generateHash P (evidence_record ts ty c tg att) = Inr h \<longrightarrow>
        (\<exists>n stored'. saveRecord P (evidence_record ts ty c tg att) stored = Inr (n, stored')
           \<and> get_property (last stored') ''hash'' = PStr h
           \<and> get_property (last stored') ''id'' = PNum n))"
proof (intro conjI impI)
  assume "has_crypto_subtle P"
  then show "generateHash P (evidence_record ts ty c tg att)
        = Inr (utf16 (to_hex (digest_SHA256 P (utf8_encode (evidence_text ts ty c tg att)))))"
    by (simp add: generateHash_subtle stringify_evidence)
next
  assume "\<not> has_crypto_subtle P"
  from generateHash_fallback [OF this, of "evidence_record ts ty c tg att"]
  show "generateHash P (evidence_record ts ty c tg att)
        = (if \<exists>u \<in> set (evidence_text ts ty c tg att). 255 < unat u
           then Inl InvalidCharacterError
           else Inr (take 64 (utf16 (btoa (map (\<lambda>u. char_of (unat u))
                                          (evidence_text ts ty c tg att))))))"
    by (simp only: stringify_evidence)
next
  assume "ts' \<noteq> ts"
  then show "evidence_text ts' ty c tg att \<noteq> evidence_text ts ty c tg att"
    by (rule evidence_text_timestamp)
next
  assume "has_crypto_subtle P"
  then show "generateHash P (evidence_record ts' ty c tg att) = generateHash P (evidence_record ts ty c tg att)
         \<longleftrightarrow> digest_SHA256 P (utf8_encode (evidence_text ts' ty c tg att))
               = digest_SHA256 P (utf8_encode (evidence_text ts ty c tg att))"
    by (simp add: generateHash_subtle stringify_evidence hex_text_inj)
next
  assume "generateHash P (evidence_record ts ty c tg att) = Inr h"
  from saveRecord_evidence [OF this, of stored]
  show "\<exists>n stored'. saveRecord P (evidence_record ts ty c tg att) stored = Inr (n, stored')
           \<and> get_property (last stored') ''hash'' = PStr h
           \<and> get_property (last stored') ''id'' = PNum n"
    by (simp add: evidence_record_stored_properties)
qed

text \<open>
  A string of the source has no code unit above 255. The UTF-8 bytes of a text that ends in
  a quotation mark and of what follows it are encoded one after the other, so the bytes that
  \<^verbatim>\<open>verifyRecordIntegrity\<close> hashes for a stored record are not the bytes that were hashed
  when it was saved.
\<close>

lemma utf16_unit: "unat (word_of_nat (of_char c) :: 16 word) = of_char c"
proof -
  have "(of_char c :: nat) < 256" by simp
  also have "(256 :: nat) < 2 ^ 16" by simp
  finally show ?thesis by (simp add: unsigned_of_nat take_bit_nat_eq_self)
qed

lemma utf16_narrow: "\<not> (\<exists>u \<in> set (utf16 s). 255 < unat u)"
proof -
  have "(of_char c :: nat) \<le> 255" for c
  proof -
    have "(of_char c :: nat) < 256" by simp
    then show ?thesis by linarith
  qed
  then show ?thesis by (auto simp: utf16_def utf16_unit not_less)
qed

lemma chars_of_utf16: "map (\<lambda>u. char_of (unat u)) (utf16 s) = s"
  by (simp add: utf16_def utf16_unit comp_def)

lemma take_utf16: "take n (utf16 s) = utf16 (take n s)"
  by (simp add: utf16_def take_map)

lemma code_points_append:
  "xs \<noteq> [] \<Longrightarrow> \<not> is_leading_surrogate (last xs) \<Longrightarrow>
     code_points (xs @ ys) = code_points xs @ code_points ys"
proof (induction xs rule: code_points.induct)
  case (1 u v rest)
  show ?case
  proof (cases "is_leading_surrogate u \<and> is_trailing_surrogate v")
    case True
    show ?thesis
    proof (cases "rest = []")
      case True
      with \<open>is_leading_surrogate u \<and> is_trailing_surrogate v\<close> show ?thesis by simp
    next
      case False
      with 1 True show ?thesis by simp
    qed
  next
    case False
    with 1 show ?thesis by auto
  qed
next
  case (2 u)
  then show ?case by (cases ys) simp_all
next
  case 3
  then show ?case by simp
qed

lemma utf8_encode_append:
  "xs \<noteq> [] \<Longrightarrow> \<not> is_leading_surrogate (last xs) \<Longrightarrow>
     utf8_encode (xs @ ys) = utf8_encode xs @ utf8_encode ys"
  by (simp add: utf8_encode_def code_points_append)

lemma code_points_narrow: "\<forall>u \<in> set xs. unat u < 0xD800 \<Longrightarrow> code_points xs = map unat xs"
  by (induction xs rule: code_points.induct)
     (simp_all add: lone_unit_def is_leading_surrogate_def is_trailing_surrogate_def)

lemma utf8_encode_ascii:
  assumes "\<forall>c \<in> set s. of_char c < (128 :: nat)"
  shows "utf8_encode (utf16 s) = map (\<lambda>c. word_of_nat (of_char c)) s"
proof -
  have "\<forall>u \<in> set (utf16 s). unat u < 0xD800"
    using assms by (auto simp: utf16_def utf16_unit)
  then have "code_points (utf16 s) = map unat (utf16 s)" by (rule code_points_narrow)
  also have "\<dots> = map of_char s" by (simp add: utf16_def utf16_unit comp_def)
  finally have "code_points (utf16 s) = map of_char s" .
  moreover have "concat (map utf8_of_code_point (map of_char s)) = map of_char s"
    using assms by (induction s) (simp_all add: utf8_of_code_point_def)
  ultimately show ?thesis by (simp add: utf8_encode_def comp_def)
qed

lemma evidence_members_end:
  "evidence_members ts ty c tg att \<noteq> []"
  "last (evidence_members ts ty c tg att) = 0x22"
  by (cases att; simp add: evidence_members_def json_quote_def utf16_def)+

lemma bytes_with_id_differ:
  "utf8_encode (evidence_text_with_id ts ty c tg att n) \<noteq> utf8_encode (evidence_text ts ty c tg att)"
proof -
  define front where "front = utf16 ''{'' @ evidence_members ts ty c tg att"
  have ne: "front \<noteq> []" by (simp add: front_def utf16_def)
  have "last front = 0x22"
    using evidence_members_end [of ts ty c tg att] by (simp add: front_def)
  then have nl: "\<not> is_leading_surrogate (last front)"
    by (simp add: is_leading_surrogate_def)
  have plain: "evidence_text ts ty c tg att = front @ utf16 ''}''"
    by (simp add: evidence_text_def front_def)
  have with_id: "evidence_text_with_id ts ty c tg att n
      = front @ (utf16 ([CHR '','', CHR 0x22] @ ''id'' @ [CHR 0x22, CHR '':''])
                   @ utf16 (number_to_string n) @ utf16 ''}'')"
    by (simp add: evidence_text_with_id_def front_def)
  have "utf8_encode (utf16 ([CHR '','', CHR 0x22] @ ''id'' @ [CHR 0x22, CHR '':''])
                     @ utf16 (number_to_string n) @ utf16 ''}'') \<noteq> utf8_encode (utf16 ''}'')"
    by (simp add: utf8_encode_def utf16_def lone_unit_def is_leading_surrogate_def
        is_trailing_surrogate_def utf8_of_code_point_def)
  then show ?thesis
    unfolding plain with_id by (simp add: utf8_encode_append [OF ne nl])
qed

text \<open>
  A record that \<^verbatim>\<open>saveRecord\<close> has stored carries the id the store gave it, and
  \<^verbatim>\<open>verifyRecordIntegrity\<close> takes only \<^verbatim>\<open>hash\<close> out of it: with \<^verbatim>\<open>crypto.subtle\<close> the answer is
  whether SHA-256 has the same digest for the text with the id and for the text without it.
\<close>

lemma text_with_id_differs:
  "evidence_text_with_id ts ty c tg att n \<noteq> evidence_text ts ty c tg att"
proof
  assume "evidence_text_with_id ts ty c tg att n = evidence_text ts ty c tg att"
  then have "length (evidence_text_with_id ts ty c tg att n) = length (evidence_text ts ty c tg att)"
    by simp
  then show False
    by (simp add: evidence_text_with_id_def evidence_text_def utf16_def)
qed

lemma saved_record_verification:
  assumes subtle: "has_crypto_subtle P"
    and saved: "saveRecord P (evidence_record ts ty c tg att) stored = Inr (n, stored')"
  shows "verifyRecordIntegrity P (last stored') =
           Inr (digest_SHA256 P (utf8_encode (evidence_text ts ty c tg att))
                = digest_SHA256 P (utf8_encode (evidence_text_with_id ts ty c tg att n)))"
proof -
  let ?h = "utf16 (to_hex (digest_SHA256 P (utf8_encode (evidence_text ts ty c tg att))))"
  have gen: "generateHash P (evidence_record ts ty c tg att) = Inr ?h"
    using subtle by (simp add: generateHash_subtle stringify_evidence)
  from saveRecord_evidence [OF gen, of stored] saved
  have last: "last stored' = evidence_record ts ty c tg att @ [(''hash'', PStr ?h), (''id'', PNum n)]"
    by auto
  show ?thesis
    unfolding verifyRecordIntegrity_def Let_def last evidence_record_without_hash
      evidence_record_stored_properties
    using subtle
    by (simp add: generateHash_subtle stringify_evidence_with_id hex_text_inj)
qed

text \<open>The test records, their JSON texts and their hashes.\<close>

lemma no_subtle: "\<not> has_crypto_subtle no_subtle_api"
  by (simp add: no_subtle_api_def)

lemma test_subtle: "has_crypto_subtle test_api"
  by (simp add: test_api_def)

lemma test_text:
  "evidence_text 1700000000000 (utf16 ''Incident'') (utf16 ''Incident at pickup'')
     (utf16 ''#Harassment'') None
   = utf16 test_evidence_json"
  by (simp add: evidence_text_def evidence_members_def number_to_string_def char_of_eq_iff
      text_eval test_evidence_json_def)

lemma test_text_later:
  "evidence_text 1700000000001 (utf16 ''Incident'') (utf16 ''Incident at pickup'')
     (utf16 ''#Harassment'') None
   = utf16 test_evidence_later_json"
  by (simp add: evidence_text_def evidence_members_def number_to_string_def char_of_eq_iff
      text_eval test_evidence_later_json_def)

lemma test_text_base64:
  "take 64 (btoa test_evidence_json) = test_fallback_hash"
  by (simp add: btoa_def b64_char_def char_of_eq_iff test_fallback_hash_def test_evidence_json_def)

lemma test_text_later_base64:
  "take 64 (btoa test_evidence_later_json)
   = ''eyJ0aW1lc3RhbXAiOjE3MDAwMDAwMDAwMDEsInR5cGUiOiJJbmNpZGVudCIsImNv''"
  by (simp add: btoa_def b64_char_def char_of_eq_iff test_evidence_later_json_def)

lemma test_fallback_hashes:
  "generateHash no_subtle_api test_evidence = Inr (utf16 test_fallback_hash)"
  "generateHash no_subtle_api test_evidence_later
     = Inr (utf16 ''eyJ0aW1lc3RhbXAiOjE3MDAwMDAwMDAwMDEsInR5cGUiOiJJbmNpZGVudCIsImNv'')"
  unfolding test_evidence_def test_evidence_later_def
    generateHash_fallback [OF no_subtle] stringify_evidence test_text test_text_later
  by (simp_all only: utf16_narrow chars_of_utf16 take_utf16 test_text_base64
      test_text_later_base64 if_False)

lemma test_wide_units:
  "\<exists>u \<in> set (evidence_text 1700000000000 (utf16 ''Incident'')
       (utf16 ''He didn'' @ [0x2019] @ utf16 ''t come'') (utf16 ''#Harassment'') None). 255 < unat u"
proof (rule bexI [where x = "0x2019"])
  show "255 < unat (0x2019 :: 16 word)" by simp
  have "(0x2019 :: 16 word) \<in> set (json_quote (utf16 ''He didn'' @ [0x2019] @ utf16 ''t come''))"
    by (simp add: text_eval)
  then show "(0x2019 :: 16 word) \<in> set (evidence_text 1700000000000 (utf16 ''Incident'')
       (utf16 ''He didn'' @ [0x2019] @ utf16 ''t come'') (utf16 ''#Harassment'') None)"
    by (simp add: evidence_text_def evidence_members_def)
qed

lemma test_wide_rejects: "generateHash no_subtle_api test_evidence_wide = Inl InvalidCharacterError"
  unfolding test_evidence_wide_def generateHash_fallback [OF no_subtle] stringify_evidence
  using test_wide_units by simp

lemma test_text_stored:
  "evidence_text_with_id 1700000000000 (utf16 ''Incident'') (utf16 ''Incident at pickup'')
     (utf16 ''#Harassment'') None 8
   = utf16 test_evidence_stored_json"
  by (simp add: evidence_text_with_id_def evidence_members_def number_to_string_def char_of_eq_iff
      text_eval test_evidence_stored_json_def)

lemma test_digests:
  "digest_SHA256 test_api (utf8_encode (utf16 test_evidence_json)) = replicate 32 0x2E"
  "digest_SHA256 test_api (utf8_encode (utf16 test_evidence_later_json)) = replicate 32 0x2F"
  "digest_SHA256 test_api (utf8_encode (utf16 test_evidence_stored_json)) = replicate 32 0xDD"
proof -
  have "utf8_encode (utf16 test_evidence_json) = map (\<lambda>c. word_of_nat (of_char c)) test_evidence_json"
    by (rule utf8_encode_ascii) (simp add: test_evidence_json_def)
  then show "digest_SHA256 test_api (utf8_encode (utf16 test_evidence_json)) = replicate 32 0x2E"
    by (simp add: test_api_def test_evidence_json_def)
  have "utf8_encode (utf16 test_evidence_later_json)
          = map (\<lambda>c. word_of_nat (of_char c)) test_evidence_later_json"
    by (rule utf8_encode_ascii) (simp add: test_evidence_later_json_def)
  then show "digest_SHA256 test_api (utf8_encode (utf16 test_evidence_later_json)) = replicate 32 0x2F"
    by (simp add: test_api_def test_evidence_later_json_def)
  have "utf8_encode (utf16 test_evidence_stored_json)
          = map (\<lambda>c. word_of_nat (of_char c)) test_evidence_stored_json"
    by (rule utf8_encode_ascii) (simp add: test_evidence_stored_json_def)
  then show "digest_SHA256 test_api (utf8_encode (utf16 test_evidence_stored_json)) = replicate 32 0xDD"
    by (simp add: test_api_def test_evidence_stored_json_def)
qed

lemma test_hex:
  "to_hex (replicate 32 0x2E) = test_digest_hash"
  "to_hex (replicate 32 0x2F) = concat (replicate 32 ''2f'')"
proof -
  have digits: "hex_digit 2 = CHR ''2''" "hex_digit 14 = CHR ''e''" "hex_digit 15 = CHR ''f''"
    by (simp_all add: hex_digit_def char_of_eq_iff)
  show "to_hex (replicate 32 0x2E) = test_digest_hash"
    by (simp add: to_hex_def digits test_digest_hash_def)
  show "to_hex (replicate 32 0x2F) = concat (replicate 32 ''2f'')"
    by (simp add: to_hex_def digits)
qed

lemma test_digest_hashes:
  "generateHash test_api test_evidence = Inr (utf16 test_digest_hash)"
  "generateHash test_api test_evidence_later = Inr (utf16 (concat (replicate 32 ''2f'')))"
  unfolding test_evidence_def test_evidence_later_def
    generateHash_subtle [OF test_subtle] stringify_evidence test_text test_text_later test_digests
    test_hex
  by (rule refl)+

lemma test_earlier_id: "max_of (map record_id_or_0 [test_earlier_record]) + 1 = 8"
  by (simp add: record_id_or_0_def get_property_def test_earlier_record_def)

lemma test_earlier_kept: "json_kept test_earlier_record = test_earlier_record"
  by (simp add: json_kept_def test_earlier_record_def)

lemma test_saveRecord:
  "saveRecord test_api test_evidence [test_earlier_record]
     = Inr (8, [test_earlier_record, test_evidence_stored])"
  using saveRecord_evidence [OF test_digest_hashes(1) [unfolded test_evidence_def],
          of "[test_earlier_record]"] test_earlier_id
  by (simp add: test_evidence_def test_evidence_stored_def test_earlier_kept)

lemma test_stored_properties:
  "get_property test_evidence_stored ''hash'' = PStr (utf16 test_digest_hash)"
  "get_property test_evidence_stored ''id'' = PNum 8"
  unfolding test_evidence_stored_def test_evidence_def
  by (rule evidence_record_stored_properties)+

lemma test_stored_verification: "verifyRecordIntegrity test_api test_evidence_stored = Inr False"
  using saved_record_verification [OF test_subtle test_saveRecord [unfolded test_evidence_def]]
  by (simp add: test_text test_text_stored test_digests)

text \<open>
  The theorem on the test record: hashed and saved after an earlier record on a page with
  \<^verbatim>\<open>crypto.subtle\<close>, and hashed on a page without it, where the record with a typographic
  apostrophe in its content is rejected.
\<close>

theorem content_hash_input_witness:
  "has_crypto_subtle test_api
   \<and> generateHash test_api test_evidence = Inr (utf16 test_digest_hash)
   \<and> (1700000000001 :: int) \<noteq> 1700000000000
   \<and> evidence_text 1700000000001 (utf16 ''Incident'') (utf16 ''Incident at pickup'')
         (utf16 ''#Harassment'') None
       \<noteq> evidence_text 1700000000000 (utf16 ''Incident'') (utf16 ''Incident at pickup'')
           (utf16 ''#Harassment'') None
   \<and> generateHash test_api test_evidence_later \<noteq> generateHash test_api test_evidence
   \<and> saveRecord test_api test_evidence [test_earlier_record]
       = Inr (8, [test_earlier_record, test_evidence_stored])
   \<and> get_property test_evidence_stored ''hash'' = PStr (utf16 test_digest_hash)
   \<and> get_property test_evidence_stored ''id'' = PNum 8
   \<and> \<not> has_crypto_subtle no_subtle_api
   \<and> generateHash no_subtle_api test_evidence = Inr (utf16 test_fallback_hash)
   \<and> generateHash no_subtle_api test_evidence_wide = Inl InvalidCharacterError"
proof -
  note on_page = content_hash_input
      [where P = test_api and ts = 1700000000000 and ts' = 1700000000001
         and ty = "utf16 ''Incident''" and c = "utf16 ''Incident at pickup''"
         and tg = "utf16 ''#Harassment''" and att = None
         and h = "utf16 test_digest_hash" and stored = "[test_earlier_record]"]
  note off_page = content_hash_input
      [where P = no_subtle_api and ts = 1700000000000 and ts' = 1700000000001
         and ty = "utf16 ''Incident''" and c = "utf16 ''Incident at pickup''"
         and tg = "utf16 ''#Harassment''" and att = None
         and h = "utf16 test_fallback_hash" and stored = "[test_earlier_record]"]
  note wide = content_hash_input
      [where P = no_subtle_api and ts = 1700000000000 and ts' = 1700000000001
         and ty = "utf16 ''Incident''" and c = "utf16 ''He didn'' @ [0x2019] @ utf16 ''t come''"
         and tg = "utf16 ''#Harassment''" and att = None
         and h = "utf16 test_fallback_hash" and stored = "[test_earlier_record]"]
  have later: "(1700000000001 :: int) \<noteq> 1700000000000" by simp
  from on_page test_subtle later
  have "evidence_text 1700000000001 (utf16 ''Incident'') (utf16 ''Incident at pickup'')
          (utf16 ''#Harassment'') None
        \<noteq> evidence_text 1700000000000 (utf16 ''Incident'') (utf16 ''Incident at pickup'')
            (utf16 ''#Harassment'') None"
    by blast
  moreover from on_page test_subtle
  have "generateHash test_api test_evidence_later = generateHash test_api test_evidence
        \<longleftrightarrow> digest_SHA256 test_api (utf8_encode (utf16 test_evidence_later_json))
            = digest_SHA256 test_api (utf8_encode (utf16 test_evidence_json))"
    unfolding test_evidence_def test_evidence_later_def test_text test_text_later by blast
  then have "generateHash test_api test_evidence_later \<noteq> generateHash test_api test_evidence"
    by (simp add: test_digests)
  moreover from on_page test_subtle
  have "generateHash test_api test_evidence = Inr (utf16 test_digest_hash)"
    unfolding test_evidence_def test_text test_digests test_hex by blast
  moreover from off_page no_subtle
  have "generateHash no_subtle_api test_evidence = Inr (utf16 test_fallback_hash)"
    unfolding test_evidence_def test_text
    by (simp add: utf16_narrow chars_of_utf16 take_utf16 test_text_base64)
  moreover from wide no_subtle test_wide_units
  have "generateHash no_subtle_api test_evidence_wide = Inl InvalidCharacterError"
    unfolding test_evidence_wide_def by simp
  ultimately show ?thesis
    using test_subtle no_subtle test_saveRecord test_stored_properties by simp
qed

text \<open>
  Two records with the same type, content, tags and attachments and timestamps one
  millisecond apart: the text that is hashed differs, and so does the hash, with and without
  \<^verbatim>\<open>crypto.subtle\<close>.
\<close>

theorem hash_covers_timestamp_counterexample:
  "get_property test_evidence ''type'' = get_property test_evidence_later ''type''
   \<and> get_property test_evidence ''content'' = get_property test_evidence_later ''content''
   \<and> get_property test_evidence ''tags'' = get_property test_evidence_later ''tags''
   \<and> get_property test_evidence ''attachments'' = get_property test_evidence_later ''attachments''
   \<and> get_property test_evidence ''timestamp'' \<noteq> get_property test_evidence_later ''timestamp''
   \<and> JSON_stringify_object test_evidence \<noteq> JSON_stringify_object test_evidence_later
   \<and> generateHash test_api test_evidence \<noteq> generateHash test_api test_evidence_later
   \<and> generateHash no_subtle_api test_evidence \<noteq> generateHash no_subtle_api test_evidence_later"
proof -
  have "JSON_stringify_object test_evidence \<noteq> JSON_stringify_object test_evidence_later"
    unfolding test_evidence_def test_evidence_later_def stringify_evidence
    by (rule evidence_text_timestamp) simp
  moreover have "utf16 test_digest_hash \<noteq> utf16 (concat (replicate 32 ''2f''))"
  proof -
    have "utf16 (to_hex (replicate 32 (0x2E :: 8 word)))
        \<noteq> utf16 (to_hex (replicate 32 (0x2F :: 8 word)))"
      by (simp add: hex_text_inj)
    then show ?thesis unfolding test_hex .
  qed
  moreover have "utf16 test_fallback_hash
      \<noteq> utf16 ''eyJ0aW1lc3RhbXAiOjE3MDAwMDAwMDAwMDEsInR5cGUiOiJJbmNpZGVudCIsImNv''"
    by (simp add: utf16_def test_fallback_hash_def)
  ultimately show ?thesis
    by (simp add: test_digest_hashes test_fallback_hashes)
       (simp add: get_property_def test_evidence_def test_evidence_later_def evidence_record_def)
qed

text \<open>
  Claim C4. The test record is saved after an earlier record on a page with \<^verbatim>\<open>crypto.subtle\<close>
  and is stored with the id 8 and with the hexadecimal digest of the JSON text of its
  timestamp, type, content and tags. \<^verbatim>\<open>verifyRecordIntegrity\<close> of the stored record, which
  nothing has changed, is \<open>False\<close>: it hashes the text that also has \<^verbatim>\<open>"id":8\<close>, while
  \<^verbatim>\<open>saveRecord\<close> computed the hash before the id existed.
\<close>

theorem stored_record_fails_verification:
  "has_crypto_subtle test_api
   \<and> saveRecord test_api test_evidence [test_earlier_record]
       = Inr (8, [test_earlier_record, test_evidence_stored])
   \<and> JSON_stringify_object test_evidence = utf16 test_evidence_json
   \<and> get_property test_evidence_stored ''hash''
       = PStr (utf16 (to_hex (digest_SHA256 test_api (utf8_encode (utf16 test_evidence_json)))))
   \<and> JSON_stringify_object (without_property test_evidence_stored ''hash'')
       = utf16 test_evidence_stored_json
   \<and> verifyRecordIntegrity test_api test_evidence_stored = Inr False"
proof -
  have "JSON_stringify_object test_evidence = utf16 test_evidence_json"
    unfolding test_evidence_def stringify_evidence by (rule test_text)
  moreover have "JSON_stringify_object (without_property test_evidence_stored ''hash'')
      = utf16 test_evidence_stored_json"
    unfolding test_evidence_stored_def test_evidence_def evidence_record_without_hash
      stringify_evidence_with_id
    by (rule test_text_stored)
  ultimately show ?thesis
    using test_subtle test_saveRecord test_stored_verification
    by (simp add: test_stored_properties test_digests test_hex)
qed

text \<open>
  Without \<^verbatim>\<open>crypto.subtle\<close> the stored record verifies, and so does the stored record whose
  content was changed afterwards: the first 64 base64 characters cover only the first 48
  characters of the JSON text.
\<close>

lemma test_text_altered:
  "evidence_text_with_id 1700000000000 (utf16 ''Incident'') (utf16 ''Nothing happened'')
     (utf16 ''#Harassment'') None 8
   = utf16 test_evidence_altered_json"
  by (simp add: evidence_text_with_id_def evidence_members_def number_to_string_def char_of_eq_iff
      text_eval test_evidence_altered_json_def)

lemma test_stored_base64:
  "take 64 (btoa test_evidence_stored_json) = test_fallback_hash"
  "take 64 (btoa test_evidence_altered_json) = test_fallback_hash"
  by (simp_all add: btoa_def b64_char_def char_of_eq_iff test_fallback_hash_def
      test_evidence_stored_json_def test_evidence_altered_json_def)

lemma fallback_verifies_altered_record:
  "saveRecord no_subtle_api test_evidence [test_earlier_record]
     = Inr (8, [test_earlier_record, test_evidence_fallback_stored])
   \<and> verifyRecordIntegrity no_subtle_api test_evidence_fallback_stored = Inr True
   \<and> get_property test_evidence_altered ''content''
       \<noteq> get_property test_evidence_fallback_stored ''content''
   \<and> verifyRecordIntegrity no_subtle_api test_evidence_altered = Inr True"
proof -
  have saved: "saveRecord no_subtle_api test_evidence [test_earlier_record]
     = Inr (8, [test_earlier_record, test_evidence_fallback_stored])"
    using saveRecord_evidence [OF test_fallback_hashes(1) [unfolded test_evidence_def],
            of "[test_earlier_record]"] test_earlier_id
    by (simp add: test_evidence_def test_evidence_fallback_stored_def test_earlier_kept)
  have stored: "verifyRecordIntegrity no_subtle_api test_evidence_fallback_stored = Inr True"
    unfolding verifyRecordIntegrity_def Let_def test_evidence_fallback_stored_def test_evidence_def
      evidence_record_without_hash evidence_record_stored_properties
      generateHash_fallback [OF no_subtle] stringify_evidence_with_id test_text_stored
    by (simp add: utf16_narrow chars_of_utf16 take_utf16 test_stored_base64)
  have altered: "verifyRecordIntegrity no_subtle_api test_evidence_altered = Inr True"
    unfolding verifyRecordIntegrity_def Let_def test_evidence_altered_def
      evidence_record_without_hash evidence_record_stored_properties
      generateHash_fallback [OF no_subtle] stringify_evidence_with_id test_text_altered
    by (simp add: utf16_narrow chars_of_utf16 take_utf16 test_stored_base64)
  have "get_property test_evidence_altered ''content''
       \<noteq> get_property test_evidence_fallback_stored ''content''"
    by (simp add: get_property_def test_evidence_altered_def test_evidence_fallback_stored_def
        test_evidence_def evidence_record_def utf16_def)
  with saved stored altered show ?thesis by simp
qed

end
